theory Spec2Isabelle
  imports Complex_Main
begin

section \<open>Data model\<close>

text \<open>
  The risk engine of the bilirubin calculator (\<^verbatim>\<open>services/bilirubinCalculator.ts\<close> and
  \<^verbatim>\<open>types.ts\<close>). The engine is given in two forms. The first takes JavaScript numbers as
  exact reals: no \<^verbatim>\<open>NaN\<close>, no infinities and no rounding of intermediate results; it
  carries the statements on which inputs the engine rejects, which table it reads and which
  case of the interpolation applies. The second, in the section on double precision,
  rounds every arithmetic operation as IEEE 754 binary64 does; it carries the statements
  that compare a measured value with an interpolated curve, where the last bit of a result
  decides the outcome.
  A curve table is a list of pairs, so every point is a value of its own (no array object
  occurs twice in a table).
\<close>

type_synonym DataPoints = "(real \<times> real) list"

datatype BhutaniRiskZone = High | HighIntermediate | LowIntermediate | Low | NotApplicable

datatype ThresholdStatus = ABOVE | BELOW | WITHIN | NA

text \<open>\<^verbatim>\<open>threshold: number | string\<close>\<close>

datatype ThresholdValue = Num real | Str string

record ThresholdResult =
  status :: ThresholdStatus
  threshold :: ThresholdValue

record CalculationInput =
  birthDateTime :: string
  measurementDateTime :: string
  tcbValue :: real
  gestationalWeeks :: real
  gestationalDays :: real
  hasRiskFactors :: bool

text \<open>
  The object returned by \<^verbatim>\<open>getAapThresholds\<close> and \<^verbatim>\<open>getMaiselsThresholds\<close>; the
  calculation result carries the same two fields and six more.
\<close>

record TherapyThresholds =
  phototherapy :: ThresholdResult
  exchangeTransfusion :: ThresholdResult

record CalculationResult = TherapyThresholds +
  dob :: string
  tob :: string
  hol :: real
  tcb :: real
  aog :: string
  bhutaniZone :: BhutaniRiskZone

text \<open>
  Reading index 0 of an empty table gives \<^verbatim>\<open>undefined\<close>, and reading \<^verbatim>\<open>[0]\<close> of that
  throws a \<^verbatim>\<open>TypeError\<close>.
\<close>

datatype error = TypeError

text \<open>
  The built-ins of the JavaScript host that the engine calls: \<^verbatim>\<open>new Date(text).getTime()\<close>
  (milliseconds, \<open>None\<close> for an invalid date), the two locale formatters of a date, and
  the conversion of a number to text inside a template string.
\<close>

record Host =
  dateParse :: "string \<Rightarrow> int option"
  toLocaleDateString :: "int \<Rightarrow> string"
  toLocaleTimeString :: "int \<Rightarrow> string"
  numberToString :: "real \<Rightarrow> string"

section \<open>Reference tables\<close>

definition bhutaniData_low :: DataPoints where
  "bhutaniData_low = [(12, 3.5), (24, 5.5), (36, 7.5), (48, 8.5), (60, 9), (96, 11.5), (144, 12.5)]"

definition bhutaniData_lowIntermediate :: DataPoints where
  "bhutaniData_lowIntermediate = [(12, 5), (24, 7.5), (36, 9.5), (48, 11), (60, 12), (96, 13.5), (144, 15)]"

definition bhutaniData_highIntermediate :: DataPoints where
  "bhutaniData_highIntermediate = [(12, 6.5), (24, 9.5), (36, 12), (48, 13.5), (60, 15), (96, 17), (144, 17.5)]"

definition aapPlData_lowerRisk :: DataPoints where
  "aapPlData_lowerRisk = [(0, 5), (24, 12), (48, 15), (72, 18), (96, 20), (120, 21), (168, 21.5)]"

definition aapPlData_mediumRisk :: DataPoints where
  "aapPlData_mediumRisk = [(0, 4), (24, 10), (48, 13), (72, 15), (96, 17), (120, 18), (168, 18.5)]"

definition aapPlData_higherRisk :: DataPoints where
  "aapPlData_higherRisk = [(0, 3), (24, 8), (48, 11), (72, 13), (96, 14.5), (120, 15.5), (168, 16)]"

definition aapDvetData_lowerRisk :: DataPoints where
  "aapDvetData_lowerRisk = [(0, 12), (24, 19), (48, 22), (72, 24), (96, 25), (168, 25)]"

definition aapDvetData_mediumRisk :: DataPoints where
  "aapDvetData_mediumRisk = [(0, 10), (24, 17), (48, 19), (72, 21), (96, 22.5), (168, 23)]"

definition aapDvetData_higherRisk :: DataPoints where
  "aapDvetData_higherRisk = [(0, 8), (24, 15), (48, 17), (72, 18.5), (96, 20), (168, 20.5)]"

text \<open>The Maisels table of the engine: one number per band and therapy.\<close>

record MaiselsBand =
  pl :: real
  dvet :: real

definition maiselsData_28 :: MaiselsBand where
  "maiselsData_28 = \<lparr>pl = 6, dvet = 14\<rparr>"

definition maiselsData_29 :: MaiselsBand where
  "maiselsData_29 = \<lparr>pl = 8, dvet = 14\<rparr>"

definition maiselsData_31 :: MaiselsBand where
  "maiselsData_31 = \<lparr>pl = 10, dvet = 16\<rparr>"

definition maiselsData_33 :: MaiselsBand where
  "maiselsData_33 = \<lparr>pl = 12, dvet = 18\<rparr>"

definition maiselsData_34 :: MaiselsBand where
  "maiselsData_34 = \<lparr>pl = 14, dvet = 19\<rparr>"

section \<open>Piecewise-linear interpolation\<close>

text \<open>\<^verbatim>\<open>Array.prototype.findIndex\<close>: the position of the first element that satisfies \<open>P\<close>.\<close>

fun findIndex :: "('a \<Rightarrow> bool) \<Rightarrow> 'a list \<Rightarrow> nat option" where
  "findIndex P [] = None"
| "findIndex P (x # xs) = (if P x then Some 0 else map_option Suc (findIndex P xs))"

text \<open>
  \<^verbatim>\<open>points.find(p => p[0] >= x) || points[points.length - 1]\<close> yields a point object and
  \<^verbatim>\<open>points.lastIndexOf(p1)\<close> looks that object up by identity, so \<open>i1\<close> below is the
  position where \<^verbatim>\<open>find\<close> stopped, or the last position when it found nothing.
  \<^verbatim>\<open>points[i1 - 1] || points[0]\<close> falls back to the first point when \<open>i1 = 0\<close>.
\<close>

definition linearInterpolate :: "DataPoints \<Rightarrow> real \<Rightarrow> error + real" where
  "linearInterpolate points x =
     (if points = [] then Inl TypeError
      else if x \<le> fst (points ! 0) then Inr (snd (points ! 0))
      else if x \<ge> fst (points ! (length points - 1)) then Inr (snd (points ! (length points - 1)))
      else
        let i1 = (case findIndex (\<lambda>p. fst p \<ge> x) points of
                    Some i \<Rightarrow> i
                  | None \<Rightarrow> length points - 1);
            p1 = points ! i1;
            p0 = (if i1 = 0 then points ! 0 else points ! (i1 - 1));
            x0 = fst p0; y0 = snd p0;
            x1 = fst p1; y1 = snd p1
        in if x1 = x0 then Inr y0
           else Inr (y0 + (x - x0) * (y1 - y0) / (x1 - x0)))"

section \<open>Bhutani zone\<close>

definition getBhutaniZone :: "real \<Rightarrow> real \<Rightarrow> error + BhutaniRiskZone" where
  "getBhutaniZone h t =
     (if h > 144 then Inr NotApplicable
      else (case linearInterpolate bhutaniData_highIntermediate h of
        Inl e \<Rightarrow> Inl e
      | Inr highIntermediateThreshold \<Rightarrow>
          (if t > highIntermediateThreshold then Inr High
           else (case linearInterpolate bhutaniData_lowIntermediate h of
             Inl e \<Rightarrow> Inl e
           | Inr lowIntermediateThreshold \<Rightarrow>
               (if t > lowIntermediateThreshold then Inr HighIntermediate
                else (case linearInterpolate bhutaniData_low h of
                  Inl e \<Rightarrow> Inl e
                | Inr lowThreshold \<Rightarrow>
                    (if t > lowThreshold then Inr LowIntermediate else Inr Low)))))))"

section \<open>AAP thresholds\<close>

text \<open>
  \<^verbatim>\<open>parseFloat(v.toFixed(f))\<close>: \<^verbatim>\<open>toFixed\<close> picks the integer \<open>n\<close> with \<open>n / 10^f\<close>
  nearest to the magnitude of \<open>v\<close> (the larger one on a tie) and keeps the sign; from
  \<open>10^21\<close> on it prints the number itself.
\<close>

definition toFixedNum :: "nat \<Rightarrow> real \<Rightarrow> real" where
  "toFixedNum f v =
     (if \<bar>v\<bar> \<ge> 10 ^ 21 then v
      else if v < 0 then - (of_int \<lfloor>(- v) * 10 ^ f + 1 / 2\<rfloor> / 10 ^ f)
      else of_int \<lfloor>v * 10 ^ f + 1 / 2\<rfloor> / 10 ^ f)"

definition getAapThresholds :: "real \<Rightarrow> real \<Rightarrow> bool \<Rightarrow> real \<Rightarrow> error + TherapyThresholds" where
  "getAapThresholds h a risk t =
     (let (plCurve, dvetCurve) =
            (if a \<ge> 38 then
               (if risk then (aapPlData_mediumRisk, aapDvetData_mediumRisk)
                else (aapPlData_lowerRisk, aapDvetData_lowerRisk))
             else
               (if risk then (aapPlData_higherRisk, aapDvetData_higherRisk)
                else (aapPlData_mediumRisk, aapDvetData_mediumRisk)))
      in (case linearInterpolate plCurve h of
            Inl e \<Rightarrow> Inl e
          | Inr plThreshold \<Rightarrow>
             (case linearInterpolate dvetCurve h of
                Inl e \<Rightarrow> Inl e
              | Inr dvetThreshold \<Rightarrow>
                  Inr \<lparr>phototherapy =
                         \<lparr>status = (if t \<ge> plThreshold then ABOVE else BELOW),
                          threshold = Num (toFixedNum 2 plThreshold)\<rparr>,
                       exchangeTransfusion =
                         \<lparr>status = (if t \<ge> dvetThreshold then ABOVE else BELOW),
                          threshold = Num (toFixedNum 2 dvetThreshold)\<rparr>\<rparr>)))"

section \<open>Maisels thresholds\<close>

definition getMaiselsThresholds :: "real \<Rightarrow> real \<Rightarrow> TherapyThresholds" where
  "getMaiselsThresholds a t =
     (let thresholds =
            (if a < 28 then maiselsData_28
             else if a < 30 then maiselsData_29
             else if a < 32 then maiselsData_31
             else if a < 34 then maiselsData_33
             else maiselsData_34)
      in \<lparr>phototherapy =
            \<lparr>status = (if t \<ge> pl thresholds then ABOVE else BELOW),
             threshold = Num (pl thresholds)\<rparr>,
          exchangeTransfusion =
            \<lparr>status = (if t \<ge> dvet thresholds then ABOVE else BELOW),
             threshold = Num (dvet thresholds)\<rparr>\<rparr>)"

section \<open>Timestamp normalisation\<close>

text \<open>
  The characters of class \<^verbatim>\<open>\s\<close> below U+0100: tab, line feed, vertical tab, form feed,
  carriage return, space and no-break space.
\<close>

definition isSpace :: "char \<Rightarrow> bool" where
  "isSpace c = (c = CHR 0x09 \<or> c = CHR 0x0A \<or> c = CHR 0x0B \<or> c = CHR 0x0C
                \<or> c = CHR 0x0D \<or> c = CHR 0x20 \<or> c = CHR 0xA0)"

text \<open>\<^verbatim>\<open>dt.replace(/\//g, '-')\<close>\<close>

definition replaceSlashes :: "string \<Rightarrow> string" where
  "replaceSlashes dt = map (\<lambda>c. if c = CHR ''/'' then CHR ''-'' else c) dt"

text \<open>
  \<^verbatim>\<open>s.replace(/\s+-\s+|\s+/, 'T')\<close>: the match starts at the first white-space character.
  There the first alternative takes the whole run of white space, a \<^verbatim>\<open>-\<close> and the whole
  run of white space after it, which must not be empty; when it fails, the second
  alternative takes the run of white space alone. Only this first match is replaced.
\<close>

fun replaceFirstSeparator :: "string \<Rightarrow> string" where
  "replaceFirstSeparator [] = []"
| "replaceFirstSeparator (c # cs) =
     (if isSpace c then
        (case dropWhile isSpace cs of
           [] \<Rightarrow> [CHR ''T'']
         | d # ds \<Rightarrow>
             (if d = CHR ''-'' \<and> ds \<noteq> [] \<and> isSpace (hd ds)
              then CHR ''T'' # dropWhile isSpace ds
              else CHR ''T'' # d # ds))
      else c # replaceFirstSeparator cs)"

definition formatDateTime :: "string \<Rightarrow> string" where
  "formatDateTime dt = replaceFirstSeparator (replaceSlashes dt)"

section \<open>The engine\<close>

definition calculateBilirubinRisk :: "Host \<Rightarrow> CalculationInput \<Rightarrow> error + CalculationResult option" where
  "calculateBilirubinRisk host input =
     (if birthDateTime input = [] \<or> measurementDateTime input = []
         \<or> tcbValue input = 0 \<or> gestationalWeeks input = 0
      then Inr None
      else
       (case dateParse host (formatDateTime (birthDateTime input)) of
          None \<Rightarrow> Inr None
        | Some birthDate \<Rightarrow>
           (case dateParse host (formatDateTime (measurementDateTime input)) of
              None \<Rightarrow> Inr None
            | Some measurementDate \<Rightarrow>
               (if measurementDate \<le> birthDate then Inr None
                else
                 (let h = real_of_int (measurementDate - birthDate) / (1000 * 60 * 60);
                      aogDecimal = gestationalWeeks input + gestationalDays input / 7
                  in (case (if aogDecimal < 35 then Inr NotApplicable
                            else getBhutaniZone h (tcbValue input)) of
                        Inl e \<Rightarrow> Inl e
                      | Inr zone \<Rightarrow>
                         (case (if aogDecimal \<ge> 35
                                then getAapThresholds h aogDecimal (hasRiskFactors input) (tcbValue input)
                                else Inr (getMaiselsThresholds aogDecimal (tcbValue input))) of
                            Inl e \<Rightarrow> Inl e
                          | Inr therapyThresholds \<Rightarrow>
                              Inr (Some
                                \<lparr>phototherapy = phototherapy therapyThresholds,
                                 exchangeTransfusion = exchangeTransfusion therapyThresholds,
                                 dob = toLocaleDateString host birthDate,
                                 tob = toLocaleTimeString host birthDate,
                                 hol = toFixedNum 1 h,
                                 tcb = tcbValue input,
                                 aog = (numberToString host (gestationalWeeks input) @ ''w '')
                                       @ (numberToString host (gestationalDays input) @ ''d''),
                                 bhutaniZone = zone\<rparr>))))))))"

section \<open>The second copy of the Maisels lookup\<close>

text \<open>
  The repository holds a second copy of the engine. It differs from the one above only in
  the Maisels table, which gives a range per band and therapy, and in
  \<^verbatim>\<open>getMaiselsThresholds\<close>, which reports the range as text and a three-valued status.
  The limits are integer literals; they are kept as naturals so that the template string
  \<^verbatim>\<open>`${plMin}-${plMax}`\<close> can be written out.
\<close>

record MaiselsRangeBand =
  plRange :: "nat \<times> nat"
  dvetRange :: "nat \<times> nat"

definition maiselsRangeData_28 :: MaiselsRangeBand where
  "maiselsRangeData_28 = \<lparr>plRange = (5, 6), dvetRange = (11, 14)\<rparr>"

definition maiselsRangeData_29 :: MaiselsRangeBand where
  "maiselsRangeData_29 = \<lparr>plRange = (6, 8), dvetRange = (12, 14)\<rparr>"

definition maiselsRangeData_31 :: MaiselsRangeBand where
  "maiselsRangeData_31 = \<lparr>plRange = (8, 10), dvetRange = (13, 16)\<rparr>"

definition maiselsRangeData_33 :: MaiselsRangeBand where
  "maiselsRangeData_33 = \<lparr>plRange = (10, 12), dvetRange = (15, 18)\<rparr>"

definition maiselsRangeData_34 :: MaiselsRangeBand where
  "maiselsRangeData_34 = \<lparr>plRange = (12, 14), dvetRange = (17, 19)\<rparr>"

text \<open>Decimal digits of a natural number, as \<^verbatim>\<open>Number.prototype.toString\<close> prints it.\<close>

fun showNat :: "nat \<Rightarrow> string" where
  "showNat n =
     (if n < 10 then [''0123456789'' ! n]
      else showNat (n div 10) @ [''0123456789'' ! (n mod 10)])"

definition getStatus :: "real \<Rightarrow> nat \<Rightarrow> nat \<Rightarrow> ThresholdStatus" where
  "getStatus v mn mx =
     (if v > real mx then ABOVE
      else if v < real mn then BELOW
      else WITHIN)"

definition getMaiselsThresholds_ranges :: "real \<Rightarrow> real \<Rightarrow> TherapyThresholds" where
  "getMaiselsThresholds_ranges a t =
     (let thresholds =
            (if a < 28 then maiselsRangeData_28
             else if a < 30 then maiselsRangeData_29
             else if a < 32 then maiselsRangeData_31
             else if a < 34 then maiselsRangeData_33
             else maiselsRangeData_34);
          (plMin, plMax) = plRange thresholds;
          (dvetMin, dvetMax) = dvetRange thresholds
      in \<lparr>phototherapy =
            \<lparr>status = getStatus t plMin plMax,
             threshold = Str (showNat plMin @ ''-'' @ showNat plMax)\<rparr>,
          exchangeTransfusion =
            \<lparr>status = getStatus t dvetMin dvetMax,
             threshold = Str (showNat dvetMin @ ''-'' @ showNat dvetMax)\<rparr>\<rparr>)"

section \<open>A host for concrete runs\<close>

text \<open>
  General statements below hold for every host. Concrete runs use one host: its clock is
  UTC, and \<^verbatim>\<open>Date\<close> reads the shape \<^verbatim>\<open>YYYY-MM-DDTHH:mm\<close> of the ECMAScript date-time
  format as local time (day number from \<^verbatim>\<open>DayFromYear\<close> and the month lengths); every
  other text is an invalid date for it. Its formatters print the instant in milliseconds,
  and numbers are printed by their integer part.
\<close>

definition digitValue :: "char \<Rightarrow> nat option" where
  "digitValue c =
     (let n = (of_char c :: nat)
      in if 48 \<le> n \<and> n \<le> 57 then Some (n - 48) else None)"

fun digitsValue :: "nat \<Rightarrow> string \<Rightarrow> nat option" where
  "digitsValue acc [] = Some acc"
| "digitsValue acc (c # cs) =
     (case digitValue c of
        None \<Rightarrow> None
      | Some d \<Rightarrow> digitsValue (10 * acc + d) cs)"

definition dayFromYear :: "int \<Rightarrow> int" where
  "dayFromYear y =
     365 * (y - 1970) + (y - 1969) div 4 - (y - 1901) div 100 + (y - 1601) div 400"

definition inLeapYear :: "int \<Rightarrow> bool" where
  "inLeapYear y =
     (if y mod 400 = 0 then True
      else if y mod 100 = 0 then False
      else y mod 4 = 0)"

definition daysBeforeMonth :: "int \<Rightarrow> nat \<Rightarrow> int" where
  "daysBeforeMonth y m =
     [0, 31, 59, 90, 120, 151, 181, 212, 243, 273, 304, 334] ! (m - 1)
     + (if m > 2 \<and> inLeapYear y then 1 else 0)"

definition isoLocalParse :: "string \<Rightarrow> int option" where
  "isoLocalParse s =
     (if length s = 16 \<and> s ! 4 = CHR ''-'' \<and> s ! 7 = CHR ''-''
         \<and> s ! 10 = CHR ''T'' \<and> s ! 13 = CHR '':''
      then
        (case (digitsValue 0 (take 4 s), digitsValue 0 (take 2 (drop 5 s)),
               digitsValue 0 (take 2 (drop 8 s)), digitsValue 0 (take 2 (drop 11 s)),
               digitsValue 0 (take 2 (drop 14 s))) of
           (Some y, Some m, Some d, Some hh, Some mm) \<Rightarrow>
             (if 1 \<le> m \<and> m \<le> 12 \<and> 1 \<le> d \<and> d \<le> 31 \<and> hh \<le> 23 \<and> mm \<le> 59
              then Some ((((dayFromYear (int y) + daysBeforeMonth (int y) m + int d - 1) * 24
                           + int hh) * 60 + int mm) * 60000)
              else None)
         | _ \<Rightarrow> None)
      else None)"

definition showInt :: "int \<Rightarrow> string" where
  "showInt i = (if i < 0 then CHR ''-'' # showNat (nat (- i)) else showNat (nat i))"

definition isoHost :: Host where
  "isoHost =
     \<lparr>dateParse = isoLocalParse,
      toLocaleDateString = showInt,
      toLocaleTimeString = showInt,
      numberToString = (\<lambda>v. showInt \<lfloor>v\<rfloor>)\<rparr>"

section \<open>The bracketing points in the words of the specification\<close>

text \<open>
  The right point is the first point whose x is at least the query; the left point is the
  point immediately before it, or the first point when there is none.
\<close>

fun bracketFrom :: "real \<times> real \<Rightarrow> DataPoints \<Rightarrow> real \<Rightarrow> ((real \<times> real) \<times> (real \<times> real)) option" where
  "bracketFrom prev [] x = None"
| "bracketFrom prev (p # ps) x = (if fst p \<ge> x then Some (prev, p) else bracketFrom p ps x)"

definition bracket :: "DataPoints \<Rightarrow> real \<Rightarrow> ((real \<times> real) \<times> (real \<times> real)) option" where
  "bracket points x = (case points of [] \<Rightarrow> None | p # ps \<Rightarrow> bracketFrom p (p # ps) x)"

text \<open>The invariant of a curve table, and a curve whose y never decreases as x grows.\<close>

definition sortedByX :: "DataPoints \<Rightarrow> bool" where
  "sortedByX points = sorted (map fst points)"

definition nonDecreasingInX :: "DataPoints \<Rightarrow> bool" where
  "nonDecreasingInX points =
     list_all (\<lambda>p. list_all (\<lambda>q. fst q < fst p \<or> snd p \<le> snd q) points) points"

section \<open>The engine in double precision\<close>

text \<open>
  A JavaScript number is an IEEE 754 binary64 value, and every arithmetic operation
  returns the exact result rounded to 53 significant bits, to the even neighbour on a
  tie. The definitions of this section repeat the arithmetic of the engine with that
  rounding after every operation. A double is the real number it denotes; the entries of
  the tables are doubles as they stand, and a decimal literal such as \<^verbatim>\<open>0.7\<close> is
  \<open>roundDouble (7 / 10)\<close>. The exponent range is not bounded here, so the rounding is that
  of binary64 wherever a result neither overflows nor falls into the subnormal range
  (below \<open>2^-1022\<close> in magnitude). The numbers of an input range over all reals, the
  doubles among them.
\<close>

text \<open>The number of binary digits of a positive integer.\<close>

function bitLength :: "int \<Rightarrow> nat" where
  "bitLength n = (if n \<le> 0 then 0 else Suc (bitLength (n div 2)))"
  by pat_completeness auto
termination
  by (relation "measure nat") auto

declare bitLength.simps [simp del]

text \<open>The exponent \<open>e\<close> with \<open>2^e \<le> |v| < 2^(e+1)\<close>, for \<open>v\<close> other than zero.\<close>

definition binaryExponent :: "real \<Rightarrow> int" where
  "binaryExponent v =
     (let a = \<bar>v\<bar>
      in if a \<ge> 1 then int (bitLength \<lfloor>a\<rfloor>) - 1
         else - int (bitLength (\<lceil>1 / a\<rceil> - 1)))"

definition roundHalfEven :: "real \<Rightarrow> int" where
  "roundHalfEven v =
     (let f = \<lfloor>v\<rfloor>; d = v - of_int f
      in if d < 1 / 2 then f
         else if d > 1 / 2 then f + 1
         else if even f then f else f + 1)"

definition pow2 :: "int \<Rightarrow> real" where
  "pow2 e = (if e \<ge> 0 then 2 ^ nat e else 1 / 2 ^ nat (- e))"

definition roundDouble :: "real \<Rightarrow> real" where
  "roundDouble v =
     (if v = 0 then 0
      else let u = pow2 (binaryExponent v - 52)
           in of_int (roundHalfEven (v / u)) * u)"

text \<open>
  \<^verbatim>\<open>linearInterpolate\<close> on doubles: the same steps, with the two subtractions, the
  product, the quotient and the sum of \<^verbatim>\<open>y0 + (x - x0) * (y1 - y0) / (x1 - x0)\<close> rounded
  in the order JavaScript evaluates them.
\<close>

definition linearInterpolate_double :: "DataPoints \<Rightarrow> real \<Rightarrow> error + real" where
  "linearInterpolate_double points x =
     (if points = [] then Inl TypeError
      else if x \<le> fst (points ! 0) then Inr (snd (points ! 0))
      else if x \<ge> fst (points ! (length points - 1)) then Inr (snd (points ! (length points - 1)))
      else
        let i1 = (case findIndex (\<lambda>p. fst p \<ge> x) points of
                    Some i \<Rightarrow> i
                  | None \<Rightarrow> length points - 1);
            p1 = points ! i1;
            p0 = (if i1 = 0 then points ! 0 else points ! (i1 - 1));
            x0 = fst p0; y0 = snd p0;
            x1 = fst p1; y1 = snd p1
        in if x1 = x0 then Inr y0
           else Inr (roundDouble (y0 +
                  roundDouble (roundDouble (roundDouble (x - x0) * roundDouble (y1 - y0))
                               / roundDouble (x1 - x0)))))"

definition getBhutaniZone_double :: "real \<Rightarrow> real \<Rightarrow> error + BhutaniRiskZone" where
  "getBhutaniZone_double h t =
     (if h > 144 then Inr NotApplicable
      else (case linearInterpolate_double bhutaniData_highIntermediate h of
        Inl e \<Rightarrow> Inl e
      | Inr highIntermediateThreshold \<Rightarrow>
          (if t > highIntermediateThreshold then Inr High
           else (case linearInterpolate_double bhutaniData_lowIntermediate h of
             Inl e \<Rightarrow> Inl e
           | Inr lowIntermediateThreshold \<Rightarrow>
               (if t > lowIntermediateThreshold then Inr HighIntermediate
                else (case linearInterpolate_double bhutaniData_low h of
                  Inl e \<Rightarrow> Inl e
                | Inr lowThreshold \<Rightarrow>
                    (if t > lowThreshold then Inr LowIntermediate else Inr Low)))))))"

text \<open>
  \<^verbatim>\<open>parseFloat(v.toFixed(f))\<close> on a double: \<^verbatim>\<open>toFixed\<close> works on the exact value of
  the double and prints a decimal, and \<^verbatim>\<open>parseFloat\<close> reads it back as the nearest double.
\<close>

definition toFixedNum_double :: "nat \<Rightarrow> real \<Rightarrow> real" where
  "toFixedNum_double f v = (if \<bar>v\<bar> \<ge> 10 ^ 21 then v else roundDouble (toFixedNum f v))"

definition getAapThresholds_double :: "real \<Rightarrow> real \<Rightarrow> bool \<Rightarrow> real \<Rightarrow> error + TherapyThresholds" where
  "getAapThresholds_double h a risk t =
     (let (plCurve, dvetCurve) =
            (if a \<ge> 38 then
               (if risk then (aapPlData_mediumRisk, aapDvetData_mediumRisk)
                else (aapPlData_lowerRisk, aapDvetData_lowerRisk))
             else
               (if risk then (aapPlData_higherRisk, aapDvetData_higherRisk)
                else (aapPlData_mediumRisk, aapDvetData_mediumRisk)))
      in (case linearInterpolate_double plCurve h of
            Inl e \<Rightarrow> Inl e
          | Inr plThreshold \<Rightarrow>
             (case linearInterpolate_double dvetCurve h of
                Inl e \<Rightarrow> Inl e
              | Inr dvetThreshold \<Rightarrow>
                  Inr \<lparr>phototherapy =
                         \<lparr>status = (if t \<ge> plThreshold then ABOVE else BELOW),
                          threshold = Num (toFixedNum_double 2 plThreshold)\<rparr>,
                       exchangeTransfusion =
                         \<lparr>status = (if t \<ge> dvetThreshold then ABOVE else BELOW),
                          threshold = Num (toFixedNum_double 2 dvetThreshold)\<rparr>\<rparr>)))"

text \<open>
  The two derived quantities of the engine: \<^verbatim>\<open>(measurementDate.getTime() -
  birthDate.getTime()) / (1000 * 60 * 60)\<close> and \<^verbatim>\<open>gestationalWeeks + (gestationalDays / 7)\<close>.
  A time value is a whole number of milliseconds and a double as it stands; the
  difference of two of them is rounded, and so is each quotient and the sum.
\<close>

definition hoursOfLife_double :: "int \<Rightarrow> int \<Rightarrow> real" where
  "hoursOfLife_double birthDate measurementDate =
     roundDouble (roundDouble (real_of_int (measurementDate - birthDate)) / (1000 * 60 * 60))"

definition aogDecimal_double :: "real \<Rightarrow> real \<Rightarrow> real" where
  "aogDecimal_double weeks days = roundDouble (weeks + roundDouble (days / 7))"

definition calculateBilirubinRisk_double :: "Host \<Rightarrow> CalculationInput \<Rightarrow> error + CalculationResult option" where
  "calculateBilirubinRisk_double host input =
     (if birthDateTime input = [] \<or> measurementDateTime input = []
         \<or> tcbValue input = 0 \<or> gestationalWeeks input = 0
      then Inr None
      else
       (case dateParse host (formatDateTime (birthDateTime input)) of
          None \<Rightarrow> Inr None
        | Some birthDate \<Rightarrow>
           (case dateParse host (formatDateTime (measurementDateTime input)) of
              None \<Rightarrow> Inr None
            | Some measurementDate \<Rightarrow>
               (if measurementDate \<le> birthDate then Inr None
                else
                 (let h = hoursOfLife_double birthDate measurementDate;
                      aogDecimal = aogDecimal_double (gestationalWeeks input) (gestationalDays input)
                  in (case (if aogDecimal < 35 then Inr NotApplicable
                            else getBhutaniZone_double h (tcbValue input)) of
                        Inl e \<Rightarrow> Inl e
                      | Inr zone \<Rightarrow>
                         (case (if aogDecimal \<ge> 35
                                then getAapThresholds_double h aogDecimal (hasRiskFactors input) (tcbValue input)
                                else Inr (getMaiselsThresholds aogDecimal (tcbValue input))) of
                            Inl e \<Rightarrow> Inl e
                          | Inr therapyThresholds \<Rightarrow>
                              Inr (Some
                                \<lparr>phototherapy = phototherapy therapyThresholds,
                                 exchangeTransfusion = exchangeTransfusion therapyThresholds,
                                 dob = toLocaleDateString host birthDate,
                                 tob = toLocaleTimeString host birthDate,
                                 hol = toFixedNum_double 1 h,
                                 tcb = tcbValue input,
                                 aog = (numberToString host (gestationalWeeks input) @ ''w '')
                                       @ (numberToString host (gestationalDays input) @ ''d''),
                                 bhutaniZone = zone\<rparr>))))))))"

text \<open>The rounded interpolation between two points, for the statements below.\<close>

definition segmentValue_double :: "real \<times> real \<Rightarrow> real \<times> real \<Rightarrow> real \<Rightarrow> real" where
  "segmentValue_double l r x =
     (if fst r = fst l then snd l
      else roundDouble (snd l +
             roundDouble (roundDouble (roundDouble (x - fst l) * roundDouble (snd r - snd l))
                          / roundDouble (fst r - fst l))))"

text \<open>
  A table whose values stay within 100 in magnitude and whose neighbouring points are
  between 1 and 100 apart in x and at most 100 apart in y: every curve of the engine is one.
\<close>

definition steadyTable :: "DataPoints \<Rightarrow> bool" where
  "steadyTable points =
     (list_all (\<lambda>p. \<bar>snd p\<bar> \<le> 100) points
      \<and> list_all (\<lambda>(l, r). 1 \<le> fst r - fst l \<and> fst r - fst l \<le> 100 \<and> \<bar>snd r - snd l\<bar> \<le> 100)
           (zip points (tl points)))"

section \<open>Interpolation between two points, and the scan that finds them\<close>

text \<open>
  Linear interpolation between a left and a right point, with the left point's y when both
  share the same x.
\<close>

definition segmentValue :: "real \<times> real \<Rightarrow> real \<times> real \<Rightarrow> real \<Rightarrow> real" where
  "segmentValue l r x =
     (if fst r = fst l then snd l
      else snd l + (x - fst l) * (snd r - snd l) / (fst r - fst l))"

text \<open>
  One left-to-right pass over the table that carries the previous point along and
  interpolates at the first point whose x is at least the query.
\<close>

fun interpFrom :: "real \<times> real \<Rightarrow> DataPoints \<Rightarrow> real \<Rightarrow> real" where
  "interpFrom prev [] x = snd prev"
| "interpFrom prev (p # ps) x = (if x \<le> fst p then segmentValue prev p x else interpFrom p ps x)"

section \<open>The AAP curve table in the words of the specification\<close>

text \<open>
  From 38 weeks on: the lower-risk curve without risk factors, the medium-risk curve with
  them. Below 38 weeks: the medium-risk curve without risk factors, the higher-risk curve
  with them. The phototherapy and the exchange-transfusion family use the same tier.
\<close>

datatype RiskTier = LowerRisk | MediumRisk | HigherRisk

definition aapTier :: "real \<Rightarrow> bool \<Rightarrow> RiskTier" where
  "aapTier a risk =
     (if a \<ge> 38 then (if risk then MediumRisk else LowerRisk)
      else (if risk then HigherRisk else MediumRisk))"

fun aapPlCurve :: "RiskTier \<Rightarrow> DataPoints" where
  "aapPlCurve LowerRisk = aapPlData_lowerRisk"
| "aapPlCurve MediumRisk = aapPlData_mediumRisk"
| "aapPlCurve HigherRisk = aapPlData_higherRisk"

fun aapDvetCurve :: "RiskTier \<Rightarrow> DataPoints" where
  "aapDvetCurve LowerRisk = aapDvetData_lowerRisk"
| "aapDvetCurve MediumRisk = aapDvetData_mediumRisk"
| "aapDvetCurve HigherRisk = aapDvetData_higherRisk"

section \<open>A concrete run\<close>

text \<open>
  The valid input of the test-suite: born 2024-01-01 10:00, measured 24 hours later,
  TCB 10, 38 weeks 0 days, no risk factors; and what the engine returns for it on the
  host above.
\<close>

definition exampleInput :: CalculationInput where
  "exampleInput =
     \<lparr>birthDateTime = ''2024-01-01T10:00'',
      measurementDateTime = ''2024-01-02T10:00'',
      tcbValue = 10,
      gestationalWeeks = 38,
      gestationalDays = 0,
      hasRiskFactors = False\<rparr>"

definition exampleResult :: CalculationResult where
  "exampleResult =
     \<lparr>phototherapy = \<lparr>status = BELOW, threshold = Num 12\<rparr>,
      exchangeTransfusion = \<lparr>status = BELOW, threshold = Num 19\<rparr>,
      dob = ''1704103200000'',
      tob = ''1704103200000'',
      hol = 24,
      tcb = 10,
      aog = ''38w 0d'',
      bhutaniZone = High\<rparr>"

section \<open>Facts about the interpolation\<close>

declare showNat.simps [simp del]

lemma findIndex_None: "findIndex P xs = None \<longleftrightarrow> (\<forall>x\<in>set xs. \<not> P x)"
  by (induction xs) auto

lemma findIndex_Some_less: "findIndex P xs = Some i \<Longrightarrow> i < length xs"
  by (induction xs arbitrary: i) (auto split: if_splits)

lemma bracketFrom_findIndex:
  "findIndex (\<lambda>p. x \<le> fst p) ps = Some i \<Longrightarrow> bracketFrom prev ps x = Some ((prev # ps) ! i, ps ! i)"
  by (induction ps arbitrary: prev i) (auto split: if_splits)

lemma bracketFrom_interpFrom:
  "bracketFrom prev ps x = Some (l, r) \<Longrightarrow> interpFrom prev ps x = segmentValue l r x"
  by (induction ps arbitrary: prev) (auto split: if_splits)

lemma bracketFrom_bounds:
  "bracketFrom prev ps x = Some (l, r) \<Longrightarrow> fst prev < x \<Longrightarrow> fst l < x \<and> x \<le> fst r"
  by (induction ps arbitrary: prev) (auto split: if_splits)

lemma nth_length_last: "(p # ps) ! length ps = last (p # ps)"
  by (metis last_conv_nth length_Cons diff_Suc_1 list.simps(3))

text \<open>
  Strictly between the first and the last x the index arithmetic of the source finds
  exactly the bracketing points of the specification, and they never share their x.
\<close>

lemma linearInterpolate_interior:
  assumes "\<not> x \<le> fst p" and "\<not> fst (last (p # ps)) \<le> x"
  shows "\<exists>l r. bracket (p # ps) x = Some (l, r) \<and> fst l < x \<and> x \<le> fst r
           \<and> linearInterpolate (p # ps) x = Inr (segmentValue l r x)"
proof -
  from assms have ne: "ps \<noteq> []" by auto
  with assms(2) have "last ps \<in> set ps" "x \<le> fst (last ps)" by auto
  then have "findIndex (\<lambda>q. x \<le> fst q) ps \<noteq> None"
    unfolding findIndex_None by blast
  then obtain j where j: "findIndex (\<lambda>q. x \<le> fst q) ps = Some j" by auto
  have br: "bracketFrom p ps x = Some ((p # ps) ! j, ps ! j)"
    using j by (rule bracketFrom_findIndex)
  have b: "bracket (p # ps) x = Some ((p # ps) ! j, ps ! j)"
    using br assms(1) by (simp add: bracket_def)
  have bd: "fst ((p # ps) ! j) < x \<and> x \<le> fst (ps ! j)"
    using bracketFrom_bounds[OF br] assms(1) by simp
  have "linearInterpolate (p # ps) x = Inr (segmentValue ((p # ps) ! j) (ps ! j) x)"
    using assms j nth_length_last[of p ps]
    by (simp add: linearInterpolate_def segmentValue_def Let_def)
  with b bd show ?thesis by blast
qed

lemma linearInterpolate_eq:
  "linearInterpolate (p # ps) x =
     Inr (if x \<le> fst p then snd p
          else if fst (last (p # ps)) \<le> x then snd (last (p # ps))
          else interpFrom p ps x)"
proof (cases "x \<le> fst p \<or> fst (last (p # ps)) \<le> x")
  case True
  then show ?thesis
    using nth_length_last[of p ps] by (auto simp add: linearInterpolate_def)
next
  case False
  then have a: "\<not> x \<le> fst p" "\<not> fst (last (p # ps)) \<le> x" by auto
  from linearInterpolate_interior[OF a] obtain l r where
    lr: "bracket (p # ps) x = Some (l, r)" "linearInterpolate (p # ps) x = Inr (segmentValue l r x)"
    by blast
  from lr(1) a(1) have "bracketFrom p ps x = Some (l, r)" by (simp add: bracket_def)
  then have "interpFrom p ps x = segmentValue l r x" by (rule bracketFrom_interpFrom)
  with lr(2) a show ?thesis by simp
qed

lemma linearInterpolate_total: "points \<noteq> [] \<Longrightarrow> \<exists>v. linearInterpolate points x = Inr v"
  by (cases points) (simp_all add: linearInterpolate_eq)

lemma segmentValue_lower:
  "fst l < x \<Longrightarrow> x \<le> fst r \<Longrightarrow> snd l \<le> snd r \<Longrightarrow> snd l \<le> segmentValue l r x"
  by (simp add: segmentValue_def divide_nonneg_pos)

lemma segmentValue_upper:
  assumes "fst l < x" "x \<le> fst r" "snd l \<le> snd r"
  shows "segmentValue l r x \<le> snd r"
proof -
  have d: "0 < fst r - fst l" using assms by simp
  have "(x - fst l) * (snd r - snd l) \<le> (fst r - fst l) * (snd r - snd l)"
    using assms by (intro mult_right_mono) simp_all
  then have "(x - fst l) * (snd r - snd l) / (fst r - fst l) \<le> snd r - snd l"
    using d by (simp add: pos_divide_le_eq mult.commute)
  then show ?thesis using assms by (simp add: segmentValue_def)
qed

lemma segmentValue_mono:
  assumes "fst l < x1" "x1 \<le> x2" "x2 \<le> fst r" "snd l \<le> snd r"
  shows "segmentValue l r x1 \<le> segmentValue l r x2"
proof -
  have d: "0 < fst r - fst l" using assms by simp
  have "(x1 - fst l) * (snd r - snd l) \<le> (x2 - fst l) * (snd r - snd l)"
    using assms by (intro mult_right_mono) simp_all
  then have "(x1 - fst l) * (snd r - snd l) / (fst r - fst l) \<le> (x2 - fst l) * (snd r - snd l) / (fst r - fst l)"
    using d by (simp add: divide_right_mono)
  then show ?thesis using assms by (simp add: segmentValue_def)
qed

lemma segmentValue_right: "fst l < fst r \<Longrightarrow> segmentValue l r (fst r) = snd r"
  by (simp add: segmentValue_def)

lemma interpFrom_lower:
  "sorted (map snd (prev # ps)) \<Longrightarrow> fst prev < x \<Longrightarrow> snd prev \<le> interpFrom prev ps x"
proof (induction ps arbitrary: prev)
  case Nil
  then show ?case by simp
next
  case (Cons p ps)
  show ?case
  proof (cases "x \<le> fst p")
    case True
    then show ?thesis using Cons.prems by (simp add: segmentValue_lower)
  next
    case False
    then have "snd p \<le> interpFrom p ps x" using Cons.prems by (intro Cons.IH) simp_all
    then show ?thesis using False Cons.prems by simp
  qed
qed

lemma interpFrom_upper:
  "sorted (map snd (prev # ps)) \<Longrightarrow> fst prev < x \<Longrightarrow> interpFrom prev ps x \<le> snd (last (prev # ps))"
proof (induction ps arbitrary: prev)
  case Nil
  then show ?case by simp
next
  case (Cons p ps)
  show ?case
  proof (cases "x \<le> fst p")
    case True
    have "segmentValue prev p x \<le> snd p"
      using True Cons.prems by (intro segmentValue_upper) simp_all
    moreover have "snd p \<le> snd (last (p # ps))"
      using Cons.prems(1) by (cases "ps = []") auto
    ultimately show ?thesis using True by simp
  next
    case False
    then have "interpFrom p ps x \<le> snd (last (p # ps))" using Cons.prems by (intro Cons.IH) simp_all
    then show ?thesis using False by simp
  qed
qed

lemma interpFrom_mono:
  "sorted (map snd (prev # ps)) \<Longrightarrow> fst prev < x1 \<Longrightarrow> x1 \<le> x2
     \<Longrightarrow> interpFrom prev ps x1 \<le> interpFrom prev ps x2"
proof (induction ps arbitrary: prev)
  case Nil
  then show ?case by simp
next
  case (Cons p ps)
  consider "x2 \<le> fst p" | "x1 \<le> fst p" "fst p < x2" | "fst p < x1" by linarith
  then show ?case
  proof cases
    case 1
    then show ?thesis using Cons.prems by (simp add: segmentValue_mono)
  next
    case 2
    have "segmentValue prev p x1 \<le> snd p"
      using 2 Cons.prems by (intro segmentValue_upper) simp_all
    moreover have "snd p \<le> interpFrom p ps x2"
      using 2 Cons.prems by (intro interpFrom_lower) simp_all
    ultimately show ?thesis using 2 by simp
  next
    case 3
    then have "interpFrom p ps x1 \<le> interpFrom p ps x2"
      using Cons.prems by (intro Cons.IH) simp_all
    then show ?thesis using 3 Cons.prems by simp
  qed
qed

lemma nonDecreasingInX_iff:
  "nonDecreasingInX points \<longleftrightarrow> (\<forall>p\<in>set points. \<forall>q\<in>set points. fst p \<le> fst q \<longrightarrow> snd p \<le> snd q)"
  unfolding nonDecreasingInX_def list_all_iff by (meson leD leI)

lemma sorted_snd:
  assumes "sortedByX points" "nonDecreasingInX points"
  shows "sorted (map snd points)"
proof -
  have "sorted_wrt (\<lambda>p q. fst p \<le> fst q) points"
    using assms(1) by (simp add: sortedByX_def sorted_map)
  then have "sorted_wrt (\<lambda>p q. snd p \<le> snd q) points"
    using assms(2) unfolding nonDecreasingInX_iff
    by (auto simp add: sorted_wrt_iff_nth_less)
  then show ?thesis by (simp add: sorted_map)
qed

lemma sorted_fst_last:
  "sorted (map fst (p # ps)) \<Longrightarrow> q \<in> set (p # ps) \<Longrightarrow> fst q \<le> fst (last (p # ps))"
  by (induction ps arbitrary: p) auto

lemma interpFrom_checkpoint:
  "sorted (map fst (prev # ps)) \<Longrightarrow> fst prev < cx \<Longrightarrow> (cx, cy) \<in> set ps
     \<Longrightarrow> \<forall>q\<in>set ps. fst q = cx \<longrightarrow> snd q = cy
     \<Longrightarrow> interpFrom prev ps cx = cy"
proof (induction ps arbitrary: prev)
  case Nil
  then show ?case by simp
next
  case (Cons p ps)
  show ?case
  proof (cases "cx \<le> fst p")
    case True
    have "fst p \<le> cx" using Cons.prems(1,3) by auto
    with True have e: "fst p = cx" by simp
    then have "snd p = cy" using Cons.prems(4) by simp
    moreover have "segmentValue prev p (fst p) = snd p"
      using e Cons.prems(2) by (intro segmentValue_right) simp
    ultimately show ?thesis using e True by simp
  next
    case False
    then have "(cx, cy) \<in> set ps" using Cons.prems(3) by auto
    then have "interpFrom p ps cx = cy" using False Cons.prems by (intro Cons.IH) simp_all
    then show ?thesis using False by simp
  qed
qed

lemma linearInterpolate_range:
  assumes "points \<noteq> []" "sorted (map snd points)" "linearInterpolate points x = Inr v"
  shows "snd (hd points) \<le> v \<and> v \<le> snd (last points)"
proof -
  from assms(1) obtain p ps where pts: "points = p # ps" by (cases points) auto
  have sy: "sorted (map snd (p # ps))" using assms(2) pts by simp
  have fl: "snd p \<le> snd (last (p # ps))" using sy by (cases "ps = []") auto
  have v: "v = (if x \<le> fst p then snd p
          else if fst (last (p # ps)) \<le> x then snd (last (p # ps))
          else interpFrom p ps x)"
    using assms(3) unfolding pts linearInterpolate_eq by simp
  show ?thesis
  proof (cases "x \<le> fst p")
    case True
    then show ?thesis using v fl pts by simp
  next
    case False
    then have "snd p \<le> interpFrom p ps x" "interpFrom p ps x \<le> snd (last (p # ps))"
      using interpFrom_lower[OF sy, of x] interpFrom_upper[OF sy, of x] by simp_all
    then show ?thesis using v fl pts False by auto
  qed
qed

section \<open>Facts about the tables, the rounding and the engine\<close>

lemma bhutani_low_value:
  "linearInterpolate bhutaniData_low x = Inr
     (if x \<le> 12 then 3.5 else if x \<le> 24 then 3.5 + (x - 12) * 2 / 12
      else if x \<le> 36 then 5.5 + (x - 24) * 2 / 12
      else if x \<le> 48 then 7.5 + (x - 36) * 1 / 12
      else if x \<le> 60 then 8.5 + (x - 48) * 0.5 / 12
      else if x \<le> 96 then 9 + (x - 60) * 2.5 / 36
      else if x < 144 then 11.5 + (x - 96) * 1 / 48
      else 12.5)"
  unfolding bhutaniData_low_def linearInterpolate_eq
  by (simp add: segmentValue_def)

lemma bhutani_lowIntermediate_value:
  "linearInterpolate bhutaniData_lowIntermediate x = Inr
     (if x \<le> 12 then 5 else if x \<le> 24 then 5 + (x - 12) * 2.5 / 12
      else if x \<le> 36 then 7.5 + (x - 24) * 2 / 12
      else if x \<le> 48 then 9.5 + (x - 36) * 1.5 / 12
      else if x \<le> 60 then 11 + (x - 48) * 1 / 12
      else if x \<le> 96 then 12 + (x - 60) * 1.5 / 36
      else if x < 144 then 13.5 + (x - 96) * 1.5 / 48
      else 15)"
  unfolding bhutaniData_lowIntermediate_def linearInterpolate_eq
  by (simp add: segmentValue_def)

lemma bhutani_highIntermediate_value:
  "linearInterpolate bhutaniData_highIntermediate x = Inr
     (if x \<le> 12 then 6.5 else if x \<le> 24 then 6.5 + (x - 12) * 3 / 12
      else if x \<le> 36 then 9.5 + (x - 24) * 2.5 / 12
      else if x \<le> 48 then 12 + (x - 36) * 1.5 / 12
      else if x \<le> 60 then 13.5 + (x - 48) * 1.5 / 12
      else if x \<le> 96 then 15 + (x - 60) * 2 / 36
      else if x < 144 then 17 + (x - 96) * 0.5 / 48
      else 17.5)"
  unfolding bhutaniData_highIntermediate_def linearInterpolate_eq
  by (simp add: segmentValue_def)

lemma toFixedNum_nearest:
  assumes "\<bar>v\<bar> < 10 ^ 21"
  shows "\<bar>toFixedNum f v - v\<bar> \<le> 1 / (2 * 10 ^ f) \<and> (\<exists>n::int. toFixedNum f v = of_int n / 10 ^ f)"
proof -
  have near: "\<bar>of_int \<lfloor>w + 1 / 2\<rfloor> - w\<bar> \<le> 1 / 2" for w :: real
    by linarith
  have scale: "\<bar>of_int n / 10 ^ f - u\<bar> \<le> 1 / (2 * 10 ^ f)"
    if "\<bar>of_int n - u * 10 ^ f\<bar> \<le> 1 / 2" for n :: int and u :: real
  proof -
    have "of_int n / 10 ^ f - u = (of_int n - u * 10 ^ f) / 10 ^ f" by (simp add: field_simps)
    then have "\<bar>of_int n / 10 ^ f - u\<bar> = \<bar>of_int n - u * 10 ^ f\<bar> / 10 ^ f" by simp
    also have "\<dots> \<le> (1 / 2) / 10 ^ f" using that by (intro divide_right_mono) simp_all
    finally show ?thesis by simp
  qed
  show ?thesis
  proof (cases "v < 0")
    case True
    have "\<bar>of_int \<lfloor>(- v) * 10 ^ f + 1 / 2\<rfloor> / 10 ^ f - (- v)\<bar> \<le> 1 / (2 * 10 ^ f)"
      by (rule scale) (rule near)
    then have "\<bar>- (of_int \<lfloor>(- v) * 10 ^ f + 1 / 2\<rfloor> / 10 ^ f) - v\<bar> \<le> 1 / (2 * 10 ^ f)"
      by (simp add: abs_minus_commute)
    moreover have "- (of_int \<lfloor>(- v) * 10 ^ f + 1 / 2\<rfloor> / (10::real) ^ f)
                     = of_int (- \<lfloor>(- v) * 10 ^ f + 1 / 2\<rfloor>) / 10 ^ f"
      by simp
    moreover have "toFixedNum f v = - (of_int \<lfloor>(- v) * 10 ^ f + 1 / 2\<rfloor> / 10 ^ f)"
      using True assms by (simp add: toFixedNum_def)
    ultimately show ?thesis by metis
  next
    case False
    have "\<bar>of_int \<lfloor>v * 10 ^ f + 1 / 2\<rfloor> / 10 ^ f - v\<bar> \<le> 1 / (2 * 10 ^ f)"
      by (rule scale) (rule near)
    then show ?thesis using False assms unfolding toFixedNum_def by auto
  qed
qed

lemma getBhutaniZone_value:
  "\<exists>hi li lo.
     linearInterpolate bhutaniData_highIntermediate h = Inr hi
     \<and> linearInterpolate bhutaniData_lowIntermediate h = Inr li
     \<and> linearInterpolate bhutaniData_low h = Inr lo
     \<and> getBhutaniZone h t = Inr
          (if h > 144 then NotApplicable
           else if t > hi then High
           else if t > li then HighIntermediate
           else if t > lo then LowIntermediate
           else Low)"
proof -
  obtain hi where hi: "linearInterpolate bhutaniData_highIntermediate h = Inr hi"
    using linearInterpolate_total[of bhutaniData_highIntermediate] by (auto simp add: bhutaniData_highIntermediate_def)
  obtain li where li: "linearInterpolate bhutaniData_lowIntermediate h = Inr li"
    using linearInterpolate_total[of bhutaniData_lowIntermediate] by (auto simp add: bhutaniData_lowIntermediate_def)
  obtain lo where lo: "linearInterpolate bhutaniData_low h = Inr lo"
    using linearInterpolate_total[of bhutaniData_low] by (auto simp add: bhutaniData_low_def)
  show ?thesis using hi li lo by (simp add: getBhutaniZone_def)
qed

lemmas aap_tables = aapPlData_lowerRisk_def aapPlData_mediumRisk_def aapPlData_higherRisk_def
  aapDvetData_lowerRisk_def aapDvetData_mediumRisk_def aapDvetData_higherRisk_def

lemma aapPlCurve_shape:
  "aapPlCurve tier \<noteq> [] \<and> sorted (map snd (aapPlCurve tier))
   \<and> 0 \<le> snd (hd (aapPlCurve tier)) \<and> snd (last (aapPlCurve tier)) \<le> 25"
  by (cases tier) (simp_all add: aap_tables)

lemma aapDvetCurve_shape:
  "aapDvetCurve tier \<noteq> [] \<and> sorted (map snd (aapDvetCurve tier))
   \<and> 0 \<le> snd (hd (aapDvetCurve tier)) \<and> snd (last (aapDvetCurve tier)) \<le> 25"
  by (cases tier) (simp_all add: aap_tables)

lemma getAapThresholds_value:
  "\<exists>plT dvT.
     linearInterpolate (aapPlCurve (aapTier a risk)) h = Inr plT
     \<and> linearInterpolate (aapDvetCurve (aapTier a risk)) h = Inr dvT
     \<and> 0 \<le> plT \<and> plT \<le> 25 \<and> 0 \<le> dvT \<and> dvT \<le> 25
     \<and> getAapThresholds h a risk t = Inr
          \<lparr>phototherapy =
             \<lparr>status = (if t \<ge> plT then ABOVE else BELOW), threshold = Num (toFixedNum 2 plT)\<rparr>,
           exchangeTransfusion =
             \<lparr>status = (if t \<ge> dvT then ABOVE else BELOW), threshold = Num (toFixedNum 2 dvT)\<rparr>\<rparr>"
proof -
  note sp = aapPlCurve_shape[of "aapTier a risk"]
  note sd = aapDvetCurve_shape[of "aapTier a risk"]
  obtain plT where pl: "linearInterpolate (aapPlCurve (aapTier a risk)) h = Inr plT"
    using linearInterpolate_total sp by blast
  obtain dvT where dv: "linearInterpolate (aapDvetCurve (aapTier a risk)) h = Inr dvT"
    using linearInterpolate_total sd by blast
  have r1: "snd (hd (aapPlCurve (aapTier a risk))) \<le> plT
            \<and> plT \<le> snd (last (aapPlCurve (aapTier a risk)))"
    using sp pl by (intro linearInterpolate_range) simp_all
  have r2: "snd (hd (aapDvetCurve (aapTier a risk))) \<le> dvT
            \<and> dvT \<le> snd (last (aapDvetCurve (aapTier a risk)))"
    using sd dv by (intro linearInterpolate_range) simp_all
  have "getAapThresholds h a risk t = Inr
          \<lparr>phototherapy =
             \<lparr>status = (if t \<ge> plT then ABOVE else BELOW), threshold = Num (toFixedNum 2 plT)\<rparr>,
           exchangeTransfusion =
             \<lparr>status = (if t \<ge> dvT then ABOVE else BELOW), threshold = Num (toFixedNum 2 dvT)\<rparr>\<rparr>"
    using pl dv unfolding getAapThresholds_def aapTier_def by (simp split: if_splits)
  moreover have "0 \<le> plT \<and> plT \<le> 25 \<and> 0 \<le> dvT \<and> dvT \<le> 25"
    using r1 r2 sp sd by linarith
  ultimately show ?thesis using pl dv by blast
qed

text \<open>
  What the engine returns on an input that passes every check: the zone, the two
  thresholds (\<open>truncate\<close> keeps these two fields of the result), the rounded hours of life
  and the TCB as given.
\<close>

lemma calculateBilirubinRisk_valid:
  assumes "birthDateTime input \<noteq> []" "measurementDateTime input \<noteq> []"
    "tcbValue input \<noteq> 0" "gestationalWeeks input \<noteq> 0"
    "dateParse host (formatDateTime (birthDateTime input)) = Some b"
    "dateParse host (formatDateTime (measurementDateTime input)) = Some m"
    "b < m"
  shows "\<exists>r. calculateBilirubinRisk host input = Inr (Some r)
     \<and> Inr (bhutaniZone r) =
         (if gestationalWeeks input + gestationalDays input / 7 < 35 then Inr NotApplicable
          else getBhutaniZone (real_of_int (m - b) / 3600000) (tcbValue input))
     \<and> Inr (TherapyThresholds.truncate r) =
         (if gestationalWeeks input + gestationalDays input / 7 \<ge> 35
          then getAapThresholds (real_of_int (m - b) / 3600000)
                 (gestationalWeeks input + gestationalDays input / 7) (hasRiskFactors input) (tcbValue input)
          else Inr (getMaiselsThresholds (gestationalWeeks input + gestationalDays input / 7) (tcbValue input)))
     \<and> hol r = toFixedNum 1 (real_of_int (m - b) / 3600000)
     \<and> tcb r = tcbValue input"
proof -
  obtain z where z: "getBhutaniZone (real_of_int (m - b) / 3600000) (tcbValue input) = Inr z"
    using getBhutaniZone_value by blast
  obtain th where th: "getAapThresholds (real_of_int (m - b) / 3600000)
                 (gestationalWeeks input + gestationalDays input / 7) (hasRiskFactors input) (tcbValue input) = Inr th"
    using getAapThresholds_value by blast
  show ?thesis
    using assms z th
    by (simp add: calculateBilirubinRisk_def Let_def TherapyThresholds.truncate_def)
qed

lemma calculateBilirubinRisk_Some:
  assumes "calculateBilirubinRisk host input = Inr (Some r)"
  shows "\<exists>b m. birthDateTime input \<noteq> [] \<and> measurementDateTime input \<noteq> []
    \<and> tcbValue input \<noteq> 0 \<and> gestationalWeeks input \<noteq> 0
    \<and> dateParse host (formatDateTime (birthDateTime input)) = Some b
    \<and> dateParse host (formatDateTime (measurementDateTime input)) = Some m
    \<and> b < m"
  using assms
  by (auto simp add: calculateBilirubinRisk_def split: if_splits option.splits)

text \<open>
  The engine reads a timestamp only through its emptiness and its normalised form.
\<close>

lemma same_birth_format:
  assumes "s \<noteq> []" "s' \<noteq> []" "formatDateTime s = formatDateTime s'"
  shows "calculateBilirubinRisk host (input\<lparr>birthDateTime := s\<rparr>)
         = calculateBilirubinRisk host (input\<lparr>birthDateTime := s'\<rparr>)"
  using assms by (simp add: calculateBilirubinRisk_def Let_def split: option.splits sum.splits)

lemma same_measurement_format:
  assumes "s \<noteq> []" "s' \<noteq> []" "formatDateTime s = formatDateTime s'"
  shows "calculateBilirubinRisk host (input\<lparr>measurementDateTime := s\<rparr>)
         = calculateBilirubinRisk host (input\<lparr>measurementDateTime := s'\<rparr>)"
  using assms by (simp add: calculateBilirubinRisk_def Let_def split: option.splits sum.splits)

section \<open>Facts about the concrete run\<close>

lemmas iso_defs = isoHost_def isoLocalParse_def digitValue_def dayFromYear_def daysBeforeMonth_def
  inLeapYear_def formatDateTime_def replaceSlashes_def isSpace_def

lemma iso_parse_examples:
  "dateParse isoHost (formatDateTime ''2024-01-01T10:00'') = Some 1704103200000"
  "dateParse isoHost (formatDateTime ''2024-01-02T10:00'') = Some 1704189600000"
  "dateParse isoHost (formatDateTime ''2024-01-01T10:01'') = Some 1704103260000"
  by (simp_all add: iso_defs)

lemma format_examples:
  "formatDateTime ''2024/01/01 - 10:00'' = ''2024-01-01T10:00''"
  "formatDateTime ''2024-01-01 10:00'' = ''2024-01-01T10:00''"
  "formatDateTime ''2024-01-01T10:00'' = ''2024-01-01T10:00''"
  "formatDateTime ''2024-01-02T10:00'' = ''2024-01-02T10:00''"
  by (simp_all add: formatDateTime_def replaceSlashes_def isSpace_def)

lemma aap_example_24:
  "getAapThresholds 24 38 False 10 = Inr
     \<lparr>phototherapy = \<lparr>status = BELOW, threshold = Num 12\<rparr>,
      exchangeTransfusion = \<lparr>status = BELOW, threshold = Num 19\<rparr>\<rparr>"
  by (simp add: getAapThresholds_def aap_tables linearInterpolate_eq segmentValue_def toFixedNum_def)

lemma bhutani_example_24: "getBhutaniZone 24 10 = Inr High"
  by (simp add: getBhutaniZone_def bhutani_highIntermediate_value)

lemma example_run: "calculateBilirubinRisk isoHost exampleInput = Inr (Some exampleResult)"
proof -
  have "calculateBilirubinRisk isoHost exampleInput =
      Inr (Some
        \<lparr>phototherapy = \<lparr>status = BELOW, threshold = Num 12\<rparr>,
         exchangeTransfusion = \<lparr>status = BELOW, threshold = Num 19\<rparr>,
         dob = toLocaleDateString isoHost 1704103200000,
         tob = toLocaleTimeString isoHost 1704103200000,
         hol = toFixedNum 1 24,
         tcb = 10,
         aog = (numberToString isoHost 38 @ ''w '') @ (numberToString isoHost 0 @ ''d''),
         bhutaniZone = High\<rparr>)"
    by (simp add: calculateBilirubinRisk_def exampleInput_def iso_parse_examples
          bhutani_example_24 aap_example_24)
  moreover have "toLocaleDateString isoHost 1704103200000 = ''1704103200000''"
    "toLocaleTimeString isoHost 1704103200000 = ''1704103200000''"
    "numberToString isoHost 38 = ''38''" "numberToString isoHost 0 = ''0''"
    by (simp_all add: isoHost_def showInt_def showNat.simps)
  moreover have "toFixedNum 1 24 = 24" by (simp add: toFixedNum_def)
  ultimately show ?thesis by (simp add: exampleResult_def)
qed

lemma example_parse:
  "dateParse isoHost (formatDateTime (birthDateTime exampleInput)) = Some 1704103200000"
  "dateParse isoHost (formatDateTime (measurementDateTime exampleInput)) = Some 1704189600000"
  by (simp_all add: exampleInput_def iso_parse_examples)

text \<open>
  The second copy of the Maisels lookup at 27 weeks and TCB 5.5, and its status in
  general: below the lower limit, above the upper limit, within otherwise.
\<close>

lemma maisels_ranges_copy_27w:
  "getMaiselsThresholds_ranges 27 5.5 =
     \<lparr>phototherapy = \<lparr>status = WITHIN, threshold = Str ''5-6''\<rparr>,
      exchangeTransfusion = \<lparr>status = BELOW, threshold = Str ''11-14''\<rparr>\<rparr>"
  by (simp add: getMaiselsThresholds_ranges_def maiselsRangeData_28_def getStatus_def showNat.simps)

lemma maisels_ranges_copy_status:
  "status (phototherapy (getMaiselsThresholds_ranges a t)) =
     (let (mn, mx) =
            (if a < 28 then (5, 6) else if a < 30 then (6, 8) else if a < 32 then (8, 10)
             else if a < 34 then (10, 12) else (12, 14))
      in if t < mn then BELOW else if t > mx then ABOVE else WITHIN)"
  by (simp add: getMaiselsThresholds_ranges_def getStatus_def maiselsRangeData_28_def
        maiselsRangeData_29_def maiselsRangeData_31_def maiselsRangeData_33_def
        maiselsRangeData_34_def)

section \<open>Facts about the rounding\<close>

text \<open>
  The number of binary digits brackets a positive integer between two powers of two, so
  the exponent found for \<open>v\<close> is at most its binary logarithm, and rounding moves a value
  by at most \<open>2^-53\<close> of its magnitude.
\<close>

lemma bitLength_bounds:
  "0 < n \<Longrightarrow> 2 ^ (bitLength n - 1) \<le> n \<and> n < 2 ^ bitLength n"
proof (induction n rule: bitLength.induct)
  case (1 n)
  show ?case
  proof (cases "n div 2 \<le> 0")
    case True
    with "1.prems" have "n = 1" by linarith
    then show ?thesis by (simp add: bitLength.simps)
  next
    case False
    then have pos: "0 < n div 2" by simp
    from "1.IH" "1.prems" pos
    have ih: "2 ^ (bitLength (n div 2) - 1) \<le> n div 2" "n div 2 < 2 ^ bitLength (n div 2)"
      by simp_all
    have bl: "bitLength n = Suc (bitLength (n div 2))"
      using "1.prems" by (subst bitLength.simps) simp
    have k: "bitLength (n div 2) \<noteq> 0"
      using pos by (subst bitLength.simps) simp
    then obtain j where j: "bitLength (n div 2) = Suc j" by (cases "bitLength (n div 2)") auto
    have "2 * 2 ^ j \<le> 2 * (n div 2)" using ih(1) j by simp
    also have "\<dots> \<le> n" by linarith
    finally have lo: "2 ^ (bitLength n - 1) \<le> n" using bl j by simp
    have "n < 2 * (n div 2) + 2" by linarith
    also have "\<dots> \<le> 2 * 2 ^ bitLength (n div 2)" using ih(2) by linarith
    finally have hi: "n < 2 ^ bitLength n" using bl by simp
    from lo hi show ?thesis by simp
  qed
qed

lemma bitLength_upper: "n < 2 ^ bitLength n"
proof (cases "0 < n")
  case True
  then show ?thesis using bitLength_bounds by blast
next
  case False
  then have "n \<le> 0" by simp
  also have "(0::int) < 2 ^ bitLength n" by simp
  finally show ?thesis .
qed

lemma pow2_powi: "pow2 e = 2 powi e"
  by (simp add: pow2_def power_int_def field_simps)

lemma pow2_pos: "0 < pow2 e"
  by (simp add: pow2_def)

lemma pow2_shift: "pow2 (e - 52) = pow2 e / 2 ^ 52"
  by (simp add: pow2_powi power_int_diff)

lemma binaryExponent_lower:
  assumes "v \<noteq> 0"
  shows "pow2 (binaryExponent v) \<le> \<bar>v\<bar>"
proof (cases "\<bar>v\<bar> \<ge> 1")
  case True
  then have fl: "0 < \<lfloor>\<bar>v\<bar>\<rfloor>" by linarith
  from bitLength_bounds[OF fl] have "2 ^ (bitLength \<lfloor>\<bar>v\<bar>\<rfloor> - 1) \<le> \<lfloor>\<bar>v\<bar>\<rfloor>" by simp
  then have "(2::real) ^ (bitLength \<lfloor>\<bar>v\<bar>\<rfloor> - 1) \<le> real_of_int \<lfloor>\<bar>v\<bar>\<rfloor>"
    by (metis of_int_le_iff of_int_numeral of_int_power)
  also have "\<dots> \<le> \<bar>v\<bar>" by simp
  finally have b: "(2::real) ^ (bitLength \<lfloor>\<bar>v\<bar>\<rfloor> - 1) \<le> \<bar>v\<bar>" .
  have nz: "bitLength \<lfloor>\<bar>v\<bar>\<rfloor> \<noteq> 0" using fl by (subst bitLength.simps) simp
  have "binaryExponent v = int (bitLength \<lfloor>\<bar>v\<bar>\<rfloor>) - 1"
    using True by (simp add: binaryExponent_def Let_def)
  also have "\<dots> = int (bitLength \<lfloor>\<bar>v\<bar>\<rfloor> - 1)" using nz by simp
  finally have "pow2 (binaryExponent v) = 2 ^ (bitLength \<lfloor>\<bar>v\<bar>\<rfloor> - 1)"
    by (simp only: pow2_def of_nat_0_le_iff if_True nat_int)
  with b show ?thesis by simp
next
  case False
  let ?k = "bitLength (\<lceil>1 / \<bar>v\<bar>\<rceil> - 1)"
  have pos: "0 < \<bar>v\<bar>" using assms by simp
  have "\<lceil>1 / \<bar>v\<bar>\<rceil> - 1 < 2 ^ ?k" by (rule bitLength_upper)
  then have "\<lceil>1 / \<bar>v\<bar>\<rceil> \<le> 2 ^ ?k" by simp
  then have "real_of_int \<lceil>1 / \<bar>v\<bar>\<rceil> \<le> 2 ^ ?k"
    by (metis of_int_le_iff of_int_numeral of_int_power)
  moreover have "1 / \<bar>v\<bar> \<le> real_of_int \<lceil>1 / \<bar>v\<bar>\<rceil>" by simp
  ultimately have "1 / \<bar>v\<bar> \<le> 2 ^ ?k" by linarith
  then have "1 \<le> 2 ^ ?k * \<bar>v\<bar>" using pos by (simp add: field_simps)
  then have "1 / 2 ^ ?k \<le> \<bar>v\<bar>" by (simp add: field_simps)
  moreover have "binaryExponent v = - int ?k"
    using False by (simp add: binaryExponent_def Let_def)
  moreover have "pow2 (- int ?k) = 1 / 2 ^ ?k"
    by (cases "?k = 0") (simp_all add: pow2_def)
  ultimately show ?thesis by simp
qed

lemma roundHalfEven_near: "\<bar>real_of_int (roundHalfEven w) - w\<bar> \<le> 1 / 2"
  unfolding roundHalfEven_def Let_def by (auto; linarith)

lemma roundDouble_error: "\<bar>roundDouble v - v\<bar> \<le> \<bar>v\<bar> / 2 ^ 53"
proof (cases "v = 0")
  case True
  then show ?thesis by (simp add: roundDouble_def)
next
  case False
  define u where "u = pow2 (binaryExponent v - 52)"
  have up: "0 < u" unfolding u_def by (rule pow2_pos)
  have ule: "u \<le> \<bar>v\<bar> / 2 ^ 52"
    unfolding u_def pow2_shift using binaryExponent_lower[OF False]
    by (simp add: divide_right_mono)
  have rd: "roundDouble v = real_of_int (roundHalfEven (v / u)) * u"
    using False by (simp add: roundDouble_def u_def Let_def)
  have "roundDouble v - v = (real_of_int (roundHalfEven (v / u)) - v / u) * u"
    using up by (simp add: rd field_simps)
  then have "\<bar>roundDouble v - v\<bar> = \<bar>real_of_int (roundHalfEven (v / u)) - v / u\<bar> * u"
    using up by (simp add: abs_mult)
  also have "\<dots> \<le> (1 / 2) * u"
    using roundHalfEven_near[of "v / u"] up by (intro mult_right_mono) simp_all
  also have "\<dots> \<le> (1 / 2) * (\<bar>v\<bar> / 2 ^ 52)"
    using ule by simp
  also have "\<dots> = \<bar>v\<bar> / 2 ^ 53" by simp
  finally show ?thesis .
qed

lemma roundDouble_abs_le: "\<bar>roundDouble v\<bar> \<le> 2 * \<bar>v\<bar>"
proof -
  have "\<bar>v\<bar> / 2 ^ 53 \<le> \<bar>v\<bar>" by (simp add: field_simps)
  with roundDouble_error[of v] show ?thesis by linarith
qed

lemma roundDouble_abs_ge: "\<bar>v\<bar> / 2 \<le> \<bar>roundDouble v\<bar>"
proof -
  have "\<bar>v\<bar> / 2 ^ 53 \<le> \<bar>v\<bar> / 2" by (simp add: field_simps)
  with roundDouble_error[of v] show ?thesis by linarith
qed

section \<open>Facts about the engine in double precision\<close>

text \<open>
  Between the first and the last x of a table the rounded interpolation is the rounded
  formula on two neighbouring points; it returns on every non-empty table; and on the
  curves of the engine its result stays far below the bound of \<^verbatim>\<open>toFixed\<close>.
\<close>

lemma bracketFrom_adjacent:
  "bracketFrom prev ps x = Some (l, r) \<Longrightarrow> (l, r) \<in> set (zip (prev # ps) ps)"
  by (induction ps arbitrary: prev) (auto split: if_splits)

lemma linearInterpolate_double_interior:
  assumes "\<not> x \<le> fst p" and "\<not> fst (last (p # ps)) \<le> x"
  shows "\<exists>l r. (l, r) \<in> set (zip (p # ps) ps) \<and> fst l < x \<and> x \<le> fst r
           \<and> linearInterpolate_double (p # ps) x = Inr (segmentValue_double l r x)"
proof -
  from assms have ne: "ps \<noteq> []" by auto
  with assms(2) have "last ps \<in> set ps" "x \<le> fst (last ps)" by auto
  then have "findIndex (\<lambda>q. x \<le> fst q) ps \<noteq> None"
    unfolding findIndex_None by blast
  then obtain j where j: "findIndex (\<lambda>q. x \<le> fst q) ps = Some j" by auto
  have br: "bracketFrom p ps x = Some ((p # ps) ! j, ps ! j)"
    using j by (rule bracketFrom_findIndex)
  have ad: "((p # ps) ! j, ps ! j) \<in> set (zip (p # ps) ps)"
    using br by (rule bracketFrom_adjacent)
  have bd: "fst ((p # ps) ! j) < x \<and> x \<le> fst (ps ! j)"
    using bracketFrom_bounds[OF br] assms(1) by simp
  have "linearInterpolate_double (p # ps) x = Inr (segmentValue_double ((p # ps) ! j) (ps ! j) x)"
    using assms j nth_length_last[of p ps]
    by (simp add: linearInterpolate_double_def segmentValue_double_def Let_def)
  with ad bd show ?thesis by blast
qed

lemma linearInterpolate_double_cases:
  assumes "points \<noteq> []"
  shows "\<exists>v. linearInterpolate_double points x = Inr v
           \<and> (v \<in> snd ` set points
              \<or> (\<exists>l r. (l, r) \<in> set (zip points (tl points)) \<and> fst l < x \<and> x \<le> fst r
                       \<and> v = segmentValue_double l r x))"
proof -
  from assms obtain p ps where pts: "points = p # ps" by (cases points) auto
  show ?thesis
  proof (cases "x \<le> fst p \<or> fst (last (p # ps)) \<le> x")
    case True
    have "last (p # ps) \<in> set (p # ps)" by (rule last_in_set) simp
    then have "snd (last (p # ps)) \<in> snd ` set (p # ps)" by (rule imageI)
    moreover have "snd p \<in> snd ` set (p # ps)" by simp
    moreover have "linearInterpolate_double (p # ps) x
        = Inr (if x \<le> fst p then snd p else snd (last (p # ps)))"
      using True nth_length_last[of p ps] by (auto simp add: linearInterpolate_double_def)
    ultimately show ?thesis unfolding pts by (cases "x \<le> fst p") auto
  next
    case False
    then have a: "\<not> x \<le> fst p" "\<not> fst (last (p # ps)) \<le> x" by auto
    from linearInterpolate_double_interior[OF a] obtain l r where
      lr: "(l, r) \<in> set (zip (p # ps) ps)" "fst l < x" "x \<le> fst r"
        "linearInterpolate_double (p # ps) x = Inr (segmentValue_double l r x)"
      by blast
    have "(l, r) \<in> set (zip (p # ps) (tl (p # ps)))" using lr(1) by simp
    with lr(2-4) show ?thesis unfolding pts by blast
  qed
qed

lemma linearInterpolate_double_total:
  "points \<noteq> [] \<Longrightarrow> \<exists>v. linearInterpolate_double points x = Inr v"
  using linearInterpolate_double_cases by blast

lemma segmentValue_double_bound:
  assumes "fst l < x" "x \<le> fst r" "1 \<le> fst r - fst l" "fst r - fst l \<le> 100"
    "\<bar>snd l\<bar> \<le> 100" "\<bar>snd r - snd l\<bar> \<le> 100"
  shows "\<bar>segmentValue_double l r x\<bar> \<le> 10 ^ 6"
proof -
  define d1 where "d1 = roundDouble (x - fst l)"
  define d2 where "d2 = roundDouble (snd r - snd l)"
  define m where "m = roundDouble (d1 * d2)"
  define dv where "dv = roundDouble (fst r - fst l)"
  define q where "q = roundDouble (m / dv)"
  have "\<bar>x - fst l\<bar> \<le> 100" using assms(1-4) by linarith
  then have "2 * \<bar>x - fst l\<bar> \<le> 200" by simp
  with roundDouble_abs_le[of "x - fst l"] have b1: "\<bar>d1\<bar> \<le> 200"
    unfolding d1_def by (rule order_trans)
  have "2 * \<bar>snd r - snd l\<bar> \<le> 200" using assms(6) by simp
  with roundDouble_abs_le[of "snd r - snd l"] have b2: "\<bar>d2\<bar> \<le> 200"
    unfolding d2_def by (rule order_trans)
  have "\<bar>d1 * d2\<bar> \<le> 200 * 200"
    unfolding abs_mult using b1 b2 by (intro mult_mono) simp_all
  then have "2 * \<bar>d1 * d2\<bar> \<le> 80000" by simp
  with roundDouble_abs_le[of "d1 * d2"] have bm: "\<bar>m\<bar> \<le> 80000"
    unfolding m_def by (rule order_trans)
  have "1 \<le> \<bar>fst r - fst l\<bar>" using assms(3) by linarith
  then have "1 / 2 \<le> \<bar>fst r - fst l\<bar> / 2" by simp
  from this roundDouble_abs_ge[of "fst r - fst l"] have bdv: "1 / 2 \<le> \<bar>dv\<bar>"
    unfolding dv_def by (rule order_trans)
  have "\<bar>m / dv\<bar> = \<bar>m\<bar> / \<bar>dv\<bar>" by (simp add: abs_divide)
  also have "\<dots> \<le> 80000 / (1 / 2)"
    using bm bdv by (intro frac_le) simp_all
  finally have "\<bar>m / dv\<bar> \<le> 160000" by simp
  then have "2 * \<bar>m / dv\<bar> \<le> 320000" by simp
  with roundDouble_abs_le[of "m / dv"] have bq: "\<bar>q\<bar> \<le> 320000"
    unfolding q_def by (rule order_trans)
  have "\<bar>snd l + q\<bar> \<le> \<bar>snd l\<bar> + \<bar>q\<bar>" by (rule abs_triangle_ineq)
  then have "2 * \<bar>snd l + q\<bar> \<le> 640200" using bq assms(5) by simp
  with roundDouble_abs_le[of "snd l + q"] have "\<bar>roundDouble (snd l + q)\<bar> \<le> 640200"
    by (rule order_trans)
  moreover have "fst r \<noteq> fst l" using assms by linarith
  ultimately show ?thesis
    by (simp add: segmentValue_double_def d1_def d2_def m_def dv_def q_def)
qed

lemma linearInterpolate_double_bound:
  assumes "points \<noteq> []" "steadyTable points" "linearInterpolate_double points x = Inr v"
  shows "\<bar>v\<bar> \<le> 10 ^ 6"
proof -
  from linearInterpolate_double_cases[OF assms(1), of x] assms(3)
  consider "v \<in> snd ` set points"
    | l r where "(l, r) \<in> set (zip points (tl points))" "fst l < x" "x \<le> fst r"
        "v = segmentValue_double l r x"
    by auto
  then show ?thesis
  proof cases
    case 1
    then have "\<bar>v\<bar> \<le> 100" using assms(2) by (auto simp add: steadyTable_def list_all_iff)
    then show ?thesis by simp
  next
    case 2
    from 2(1) assms(2) have "1 \<le> fst r - fst l" "fst r - fst l \<le> 100" "\<bar>snd r - snd l\<bar> \<le> 100"
      by (auto simp add: steadyTable_def list_all_iff)
    moreover have "l \<in> set points" using 2(1) by (meson set_zip_leftD)
    then have "\<bar>snd l\<bar> \<le> 100" using assms(2) by (auto simp add: steadyTable_def list_all_iff)
    ultimately show ?thesis unfolding 2(4) using 2(2,3) by (intro segmentValue_double_bound)
  qed
qed

lemma aap_curves_steady:
  "aapPlCurve tier \<noteq> [] \<and> steadyTable (aapPlCurve tier)
   \<and> aapDvetCurve tier \<noteq> [] \<and> steadyTable (aapDvetCurve tier)"
  by (cases tier) (simp_all add: steadyTable_def aap_tables)

lemma toFixedNum_double_nearest:
  assumes "\<bar>v\<bar> < 10 ^ 21"
  shows "\<exists>n::int. toFixedNum_double f v = roundDouble (of_int n / 10 ^ f)
           \<and> \<bar>of_int n / 10 ^ f - v\<bar> \<le> 1 / (2 * 10 ^ f)"
proof -
  from toFixedNum_nearest[OF assms, of f] obtain n :: int where
    "toFixedNum f v = of_int n / 10 ^ f" "\<bar>toFixedNum f v - v\<bar> \<le> 1 / (2 * 10 ^ f)"
    by blast
  moreover have "toFixedNum_double f v = roundDouble (toFixedNum f v)"
    using assms by (simp add: toFixedNum_double_def)
  ultimately show ?thesis by metis
qed

lemma getBhutaniZone_double_value:
  "\<exists>hi li lo.
     linearInterpolate_double bhutaniData_highIntermediate h = Inr hi
     \<and> linearInterpolate_double bhutaniData_lowIntermediate h = Inr li
     \<and> linearInterpolate_double bhutaniData_low h = Inr lo
     \<and> getBhutaniZone_double h t = Inr
          (if h > 144 then NotApplicable
           else if t > hi then High
           else if t > li then HighIntermediate
           else if t > lo then LowIntermediate
           else Low)"
proof -
  obtain hi where hi: "linearInterpolate_double bhutaniData_highIntermediate h = Inr hi"
    using linearInterpolate_double_total[of bhutaniData_highIntermediate]
    by (auto simp add: bhutaniData_highIntermediate_def)
  obtain li where li: "linearInterpolate_double bhutaniData_lowIntermediate h = Inr li"
    using linearInterpolate_double_total[of bhutaniData_lowIntermediate]
    by (auto simp add: bhutaniData_lowIntermediate_def)
  obtain lo where lo: "linearInterpolate_double bhutaniData_low h = Inr lo"
    using linearInterpolate_double_total[of bhutaniData_low]
    by (auto simp add: bhutaniData_low_def)
  show ?thesis using hi li lo by (simp add: getBhutaniZone_double_def)
qed

lemma getAapThresholds_double_value:
  "\<exists>plT dvT.
     linearInterpolate_double (aapPlCurve (aapTier a risk)) h = Inr plT
     \<and> linearInterpolate_double (aapDvetCurve (aapTier a risk)) h = Inr dvT
     \<and> \<bar>plT\<bar> \<le> 10 ^ 6 \<and> \<bar>dvT\<bar> \<le> 10 ^ 6
     \<and> getAapThresholds_double h a risk t = Inr
          \<lparr>phototherapy =
             \<lparr>status = (if t \<ge> plT then ABOVE else BELOW), threshold = Num (toFixedNum_double 2 plT)\<rparr>,
           exchangeTransfusion =
             \<lparr>status = (if t \<ge> dvT then ABOVE else BELOW), threshold = Num (toFixedNum_double 2 dvT)\<rparr>\<rparr>"
proof -
  note st = aap_curves_steady[of "aapTier a risk"]
  obtain plT where pl: "linearInterpolate_double (aapPlCurve (aapTier a risk)) h = Inr plT"
    using linearInterpolate_double_total st by blast
  obtain dvT where dv: "linearInterpolate_double (aapDvetCurve (aapTier a risk)) h = Inr dvT"
    using linearInterpolate_double_total st by blast
  have b1: "\<bar>plT\<bar> \<le> 10 ^ 6" using st pl by (intro linearInterpolate_double_bound) simp_all
  have b2: "\<bar>dvT\<bar> \<le> 10 ^ 6" using st dv by (intro linearInterpolate_double_bound) simp_all
  have "getAapThresholds_double h a risk t = Inr
          \<lparr>phototherapy =
             \<lparr>status = (if t \<ge> plT then ABOVE else BELOW), threshold = Num (toFixedNum_double 2 plT)\<rparr>,
           exchangeTransfusion =
             \<lparr>status = (if t \<ge> dvT then ABOVE else BELOW), threshold = Num (toFixedNum_double 2 dvT)\<rparr>\<rparr>"
    using pl dv unfolding getAapThresholds_double_def aapTier_def by (simp split: if_splits)
  with pl dv b1 b2 show ?thesis by blast
qed

lemma calculateBilirubinRisk_double_valid:
  assumes "birthDateTime input \<noteq> []" "measurementDateTime input \<noteq> []"
    "tcbValue input \<noteq> 0" "gestationalWeeks input \<noteq> 0"
    "dateParse host (formatDateTime (birthDateTime input)) = Some b"
    "dateParse host (formatDateTime (measurementDateTime input)) = Some m"
    "b < m"
  shows "\<exists>r. calculateBilirubinRisk_double host input = Inr (Some r)
     \<and> Inr (bhutaniZone r) =
         (if aogDecimal_double (gestationalWeeks input) (gestationalDays input) < 35
          then Inr NotApplicable
          else getBhutaniZone_double (hoursOfLife_double b m) (tcbValue input))
     \<and> Inr (TherapyThresholds.truncate r) =
         (if aogDecimal_double (gestationalWeeks input) (gestationalDays input) \<ge> 35
          then getAapThresholds_double (hoursOfLife_double b m)
                 (aogDecimal_double (gestationalWeeks input) (gestationalDays input))
                 (hasRiskFactors input) (tcbValue input)
          else Inr (getMaiselsThresholds
                 (aogDecimal_double (gestationalWeeks input) (gestationalDays input))
                 (tcbValue input)))
     \<and> hol r = toFixedNum_double 1 (hoursOfLife_double b m)
     \<and> tcb r = tcbValue input"
proof -
  obtain z where z: "getBhutaniZone_double (hoursOfLife_double b m) (tcbValue input) = Inr z"
    using getBhutaniZone_double_value by blast
  obtain th where th: "getAapThresholds_double (hoursOfLife_double b m)
                 (aogDecimal_double (gestationalWeeks input) (gestationalDays input))
                 (hasRiskFactors input) (tcbValue input) = Inr th"
    using getAapThresholds_double_value by blast
  show ?thesis
    using assms z th
    by (simp add: calculateBilirubinRisk_double_def Let_def TherapyThresholds.truncate_def)
qed

lemma calculateBilirubinRisk_double_Some:
  assumes "calculateBilirubinRisk_double host input = Inr (Some r)"
  shows "\<exists>b m. birthDateTime input \<noteq> [] \<and> measurementDateTime input \<noteq> []
    \<and> tcbValue input \<noteq> 0 \<and> gestationalWeeks input \<noteq> 0
    \<and> dateParse host (formatDateTime (birthDateTime input)) = Some b
    \<and> dateParse host (formatDateTime (measurementDateTime input)) = Some m
    \<and> b < m"
  using assms
  by (auto simp add: calculateBilirubinRisk_double_def split: if_splits option.splits)

lemma calculateBilirubinRisk_double_total:
  "\<exists>res. calculateBilirubinRisk_double host input = Inr res"
proof (cases "birthDateTime input \<noteq> [] \<and> measurementDateTime input \<noteq> []
         \<and> tcbValue input \<noteq> 0 \<and> gestationalWeeks input \<noteq> 0
         \<and> (\<exists>b m. dateParse host (formatDateTime (birthDateTime input)) = Some b
                  \<and> dateParse host (formatDateTime (measurementDateTime input)) = Some m
                  \<and> b < m)")
  case True
  then obtain b m where bm: "dateParse host (formatDateTime (birthDateTime input)) = Some b"
      "dateParse host (formatDateTime (measurementDateTime input)) = Some m" "b < m"
    by blast
  from True bm calculateBilirubinRisk_double_valid[of input host b m]
  show ?thesis by blast
next
  case False
  then have "calculateBilirubinRisk_double host input = Inr None"
    by (auto simp add: calculateBilirubinRisk_double_def split: option.splits)
  then show ?thesis by blast
qed

lemma iso_parse_more:
  "dateParse isoHost (formatDateTime ''2024-01-02T09:12'') = Some 1704186720000"
  "dateParse isoHost (formatDateTime ''2024-01-01T20:48'') = Some 1704142080000"
  by (simp_all add: iso_defs)

lemma double_hours:
  "hoursOfLife_double 1704103200000 1704186720000 = 6530219459687219 / 281474976710656"
  "hoursOfLife_double 1704103200000 1704142080000 = 6079859496950170 / 562949953421312"
  "hoursOfLife_double 1704103200000 1704103260000 = 4803839602528529 / 288230376151711744"
  by code_simp+

lemma double_age: "aogDecimal_double 38 0 = 38"
  by code_simp

lemma double_literals:
  "roundDouble (93 / 10) = 5235434566818202 / 562949953421312"
  "roundDouble (67 / 10) = 7543529375845581 / 1125899906842624"
  by code_simp+

text \<open>The two forms of the engine reject the same inputs.\<close>

lemma calculateBilirubinRisk_double_None:
  "calculateBilirubinRisk_double host input = Inr None
     \<longleftrightarrow> calculateBilirubinRisk host input = Inr None"
proof (cases "birthDateTime input \<noteq> [] \<and> measurementDateTime input \<noteq> []
         \<and> tcbValue input \<noteq> 0 \<and> gestationalWeeks input \<noteq> 0
         \<and> (\<exists>b m. dateParse host (formatDateTime (birthDateTime input)) = Some b
                  \<and> dateParse host (formatDateTime (measurementDateTime input)) = Some m
                  \<and> b < m)")
  case True
  then obtain b m where bm: "dateParse host (formatDateTime (birthDateTime input)) = Some b"
      "dateParse host (formatDateTime (measurementDateTime input)) = Some m" "b < m"
    by blast
  from True bm calculateBilirubinRisk_double_valid[of input host b m]
  obtain r where "calculateBilirubinRisk_double host input = Inr (Some r)" by blast
  moreover from True bm calculateBilirubinRisk_valid[of input host b m]
  obtain r' where "calculateBilirubinRisk host input = Inr (Some r')" by blast
  ultimately show ?thesis by simp
next
  case False
  then have "calculateBilirubinRisk_double host input = Inr None"
    by (auto simp add: calculateBilirubinRisk_double_def split: option.splits)
  moreover from False have "calculateBilirubinRisk host input = Inr None"
    by (auto simp add: calculateBilirubinRisk_def split: option.splits)
  ultimately show ?thesis by simp
qed

text \<open>The curves of the engine at the hours of life of the concrete runs.\<close>

lemma bhutani_double_23h12:
  "linearInterpolate_double bhutaniData_highIntermediate (6530219459687219 / 281474976710656)
     = Inr (5235434566818201 / 562949953421312)"
  by code_simp

lemma aap_double_10h48:
  "linearInterpolate_double aapPlData_mediumRisk (6079859496950170 / 562949953421312)
     = Inr (3771764687922791 / 562949953421312)"
  "linearInterpolate_double aapDvetData_mediumRisk (6079859496950170 / 562949953421312)
     = Inr (7402791887490253 / 562949953421312)"
  "toFixedNum_double 2 (3771764687922791 / 562949953421312) = 7543529375845581 / 1125899906842624"
  "toFixedNum_double 2 (7402791887490253 / 562949953421312) = 7402791887490253 / 562949953421312"
  by code_simp+

lemma aap_double_1min:
  "getAapThresholds_double (4803839602528529 / 288230376151711744) 38 False 5 = Inr
     \<lparr>phototherapy = \<lparr>status = BELOW, threshold = Num 5\<rparr>,
      exchangeTransfusion = \<lparr>status = BELOW, threshold = Num 12\<rparr>\<rparr>"
  by code_simp

section \<open>Monotonicity in exact arithmetic\<close>

text \<open>
  Without rounding, on a non-empty table sorted by x whose y never decreases as x grows
  (for any two points, the one with the smaller or equal x has the smaller or equal y),
  the interpolation never decreases as the query grows, and at the x of every point of the
  table it returns that point's y.
\<close>

lemma linearInterpolate_exact_arithmetic_monotone:
  assumes ne: "points \<noteq> []" and sx: "sortedByX points" and nd: "nonDecreasingInX points"
  shows "(\<forall>x1 x2. x1 \<le> x2 \<longrightarrow>
            (\<exists>v1 v2. linearInterpolate points x1 = Inr v1 \<and> linearInterpolate points x2 = Inr v2 \<and> v1 \<le> v2))
         \<and> (\<forall>(cx, cy)\<in>set points. linearInterpolate points cx = Inr cy)"
proof -
  from ne obtain p ps where pts: "points = p # ps" by (cases points) auto
  have sy: "sorted (map snd (p # ps))" using sorted_snd[OF sx nd] pts by simp
  have sxx: "sorted (map fst (p # ps))" using sx pts by (simp add: sortedByX_def)
  have ndi: "\<forall>a\<in>set (p # ps). \<forall>b\<in>set (p # ps). fst a \<le> fst b \<longrightarrow> snd a \<le> snd b"
    using nd pts by (simp only: nonDecreasingInX_iff)
  define f where "f x = (if x \<le> fst p then snd p
          else if fst (last (p # ps)) \<le> x then snd (last (p # ps))
          else interpFrom p ps x)" for x
  have li: "linearInterpolate points x = Inr (f x)" for x
    unfolding pts f_def by (rule linearInterpolate_eq)
  have first_last: "snd p \<le> snd (last (p # ps))"
    using sy by (cases "ps = []") auto
  have mono: "f x1 \<le> f x2" if le: "x1 \<le> x2" for x1 x2
  proof (cases "x1 \<le> fst p")
    case True
    have "snd p \<le> f x2"
      unfolding f_def using first_last interpFrom_lower[OF sy] by auto
    then show ?thesis using True by (simp add: f_def)
  next
    case False
    then have x2p: "\<not> x2 \<le> fst p" using le by simp
    show ?thesis
    proof (cases "fst (last (p # ps)) \<le> x1")
      case True
      then show ?thesis using False x2p le by (simp add: f_def)
    next
      case nl: False
      show ?thesis
      proof (cases "fst (last (p # ps)) \<le> x2")
        case True
        have "interpFrom p ps x1 \<le> snd (last (p # ps))"
          using False by (intro interpFrom_upper[OF sy]) simp
        then show ?thesis using False x2p nl True by (simp add: f_def)
      next
        case False2: False
        have "interpFrom p ps x1 \<le> interpFrom p ps x2"
          using False le by (intro interpFrom_mono[OF sy]) simp_all
        then show ?thesis using False x2p nl False2 by (simp add: f_def)
      qed
    qed
  qed
  have exact: "f cx = cy" if mem: "(cx, cy) \<in> set (p # ps)" for cx cy
  proof -
    have same: "\<forall>q\<in>set (p # ps). fst q = cx \<longrightarrow> snd q = cy"
    proof (intro ballI impI)
      fix q assume q: "q \<in> set (p # ps)" "fst q = cx"
      have "snd q \<le> cy" using ndi q mem by (metis fst_conv snd_conv order_refl)
      moreover have "cy \<le> snd q" using ndi q mem by (metis fst_conv snd_conv order_refl)
      ultimately show "snd q = cy" by simp
    qed
    have lo: "fst p \<le> cx" using sxx mem by auto
    have hi: "cx \<le> fst (last (p # ps))"
      using sorted_fst_last[OF sxx mem] by simp
    show ?thesis
    proof (cases "cx \<le> fst p")
      case True
      with lo have "fst p = cx" by simp
      then have "snd p = cy" using same by simp
      then show ?thesis using True by (simp add: f_def)
    next
      case False
      show ?thesis
      proof (cases "fst (last (p # ps)) \<le> cx")
        case True
        with hi have "fst (last (p # ps)) = cx" by simp
        then have "snd (last (p # ps)) = cy" using same by (metis last_in_set list.simps(3))
        then show ?thesis using False True by (simp add: f_def)
      next
        case nl: False
        have "(cx, cy) \<in> set ps" using mem False lo by auto
        then have "interpFrom p ps cx = cy"
          using False same sxx by (intro interpFrom_checkpoint) simp_all
        then show ?thesis using False nl by (simp add: f_def)
      qed
    qed
  qed
  show ?thesis
    using li mono exact pts by auto
qed

section \<open>The claims\<close>

subsection \<open>C1: Maisels lookup below 35 weeks\<close>

text \<open>
  C1 says that below 35 weeks the engine reports, for phototherapy and for exchange
  transfusion, a range \<open>min-max\<close> as text and a status BELOW, WITHIN or ABOVE, and that
  27 weeks with TCB 5.5 gives the phototherapy threshold \<open>5-6\<close> with status WITHIN.
  The engine modelled above keeps one number per band instead: at 27 weeks and TCB 5.5
  it reports the number 6 with status BELOW, for the lookup alone and for the whole
  calculation on the example input with these two values.
\<close>

theorem C1_maisels_single_number_at_27w:
  "getMaiselsThresholds 27 5.5 =
     \<lparr>phototherapy = \<lparr>status = BELOW, threshold = Num 6\<rparr>,
      exchangeTransfusion = \<lparr>status = BELOW, threshold = Num 14\<rparr>\<rparr>
   \<and> (case calculateBilirubinRisk isoHost (exampleInput\<lparr>tcbValue := 5.5, gestationalWeeks := 27\<rparr>) of
         Inr (Some r) \<Rightarrow> phototherapy r = \<lparr>status = BELOW, threshold = Num 6\<rparr>
       | _ \<Rightarrow> False)"
proof -
  have m: "getMaiselsThresholds 27 5.5 =
     \<lparr>phototherapy = \<lparr>status = BELOW, threshold = Num 6\<rparr>,
      exchangeTransfusion = \<lparr>status = BELOW, threshold = Num 14\<rparr>\<rparr>"
    by (simp add: getMaiselsThresholds_def maiselsData_28_def)
  from calculateBilirubinRisk_valid[of "exampleInput\<lparr>tcbValue := 5.5, gestationalWeeks := 27\<rparr>"
      isoHost 1704103200000 1704189600000]
  obtain r where r: "calculateBilirubinRisk isoHost (exampleInput\<lparr>tcbValue := 5.5, gestationalWeeks := 27\<rparr>) = Inr (Some r)"
    and t: "TherapyThresholds.truncate r = getMaiselsThresholds 27 5.5"
    by (auto simp add: exampleInput_def iso_parse_examples)
  from t have "phototherapy r = \<lparr>status = BELOW, threshold = Num 6\<rparr>"
    unfolding m by (simp add: TherapyThresholds.truncate_def)
  with r m show ?thesis by simp
qed

subsection \<open>C2: the 24-hour example\<close>

text \<open>
  C2, as amended: on every host that reads the two timestamps of the example input as
  instants 24 hours apart, the engine returns a phototherapy threshold of 12 with status
  BELOW (TCB 10 is less than 12) and an exchange-transfusion threshold of 19 with status
  BELOW.
\<close>

theorem C2_example_24h_below_both:
  assumes "dateParse host ''2024-01-01T10:00'' = Some b"
      and "dateParse host ''2024-01-02T10:00'' = Some (b + 86400000)"
  shows "\<exists>r. calculateBilirubinRisk host exampleInput = Inr (Some r)
           \<and> phototherapy r = \<lparr>status = BELOW, threshold = Num 12\<rparr>
           \<and> exchangeTransfusion r = \<lparr>status = BELOW, threshold = Num 19\<rparr>"
proof -
  from calculateBilirubinRisk_valid[of exampleInput host b "b + 86400000"] assms
  obtain r where r: "calculateBilirubinRisk host exampleInput = Inr (Some r)"
    and t: "Inr (TherapyThresholds.truncate r) = getAapThresholds 24 38 False 10"
    by (auto simp add: exampleInput_def format_examples)
  from t have "phototherapy r = \<lparr>status = BELOW, threshold = Num 12\<rparr>
           \<and> exchangeTransfusion r = \<lparr>status = BELOW, threshold = Num 19\<rparr>"
    unfolding aap_example_24 by (simp add: TherapyThresholds.truncate_def)
  with r show ?thesis by blast
qed

text \<open>C2, witness: the host of the concrete runs reads the two timestamps 24 hours apart.\<close>

theorem C2_example_24h_witness:
  "\<exists>r. calculateBilirubinRisk isoHost exampleInput = Inr (Some r)
           \<and> phototherapy r = \<lparr>status = BELOW, threshold = Num 12\<rparr>
           \<and> exchangeTransfusion r = \<lparr>status = BELOW, threshold = Num 19\<rparr>"
proof -
  have a: "dateParse isoHost ''2024-01-01T10:00'' = Some 1704103200000"
    by (simp add: iso_defs)
  have b: "dateParse isoHost ''2024-01-02T10:00'' = Some (1704103200000 + 86400000)"
    by (simp add: iso_defs)
  show ?thesis using C2_example_24h_below_both[OF a b] .
qed

text \<open>
  C2, as stated, fails: on the example input the phototherapy status is BELOW, not ABOVE.
\<close>

theorem C2_phototherapy_status_counterexample:
  "(case calculateBilirubinRisk isoHost exampleInput of
      Inr (Some r) \<Rightarrow> status (phototherapy r) = BELOW \<and> threshold (phototherapy r) = Num 12
    | _ \<Rightarrow> False)"
  by (simp add: example_run exampleResult_def)

subsection \<open>C3: when the engine returns nothing\<close>

text \<open>
  C3: the engine never throws, and it returns null exactly when the birth timestamp or
  the measurement timestamp is empty, the TCB value or the gestational weeks is zero, a
  normalised timestamp is not a date for the host, or the measurement instant is not
  after the birth instant. In every other case it returns a complete result.
\<close>

theorem C3_null_exactly_on_invalid_input:
  "(\<exists>res. calculateBilirubinRisk host input = Inr res)
   \<and> (calculateBilirubinRisk host input = Inr None \<longleftrightarrow>
        (birthDateTime input = [] \<or> measurementDateTime input = []
         \<or> tcbValue input = 0 \<or> gestationalWeeks input = 0
         \<or> dateParse host (formatDateTime (birthDateTime input)) = None
         \<or> dateParse host (formatDateTime (measurementDateTime input)) = None
         \<or> (\<exists>b m. dateParse host (formatDateTime (birthDateTime input)) = Some b
                  \<and> dateParse host (formatDateTime (measurementDateTime input)) = Some m
                  \<and> m \<le> b)))"
proof (cases "birthDateTime input \<noteq> [] \<and> measurementDateTime input \<noteq> []
         \<and> tcbValue input \<noteq> 0 \<and> gestationalWeeks input \<noteq> 0
         \<and> (\<exists>b m. dateParse host (formatDateTime (birthDateTime input)) = Some b
                  \<and> dateParse host (formatDateTime (measurementDateTime input)) = Some m
                  \<and> b < m)")
  case True
  then obtain b m where bm: "dateParse host (formatDateTime (birthDateTime input)) = Some b"
      "dateParse host (formatDateTime (measurementDateTime input)) = Some m" "b < m"
    by blast
  from True bm calculateBilirubinRisk_valid[of input host b m]
  obtain r where "calculateBilirubinRisk host input = Inr (Some r)" by blast
  then show ?thesis using True bm by auto
next
  case False
  then have "calculateBilirubinRisk host input = Inr None"
    by (auto simp add: calculateBilirubinRisk_def split: option.splits)
  moreover from False have "birthDateTime input = [] \<or> measurementDateTime input = []
         \<or> tcbValue input = 0 \<or> gestationalWeeks input = 0
         \<or> dateParse host (formatDateTime (birthDateTime input)) = None
         \<or> dateParse host (formatDateTime (measurementDateTime input)) = None
         \<or> (\<exists>b m. dateParse host (formatDateTime (birthDateTime input)) = Some b
                  \<and> dateParse host (formatDateTime (measurementDateTime input)) = Some m
                  \<and> m \<le> b)"
    by (cases "dateParse host (formatDateTime (birthDateTime input))";
        cases "dateParse host (formatDateTime (measurementDateTime input))") auto
  ultimately show ?thesis by simp
qed

text \<open>
  C3, witness: equal timestamps, an empty birth timestamp and a text that is no date give
  null; the example input does not.
\<close>

theorem C3_null_witness:
  "calculateBilirubinRisk isoHost (exampleInput\<lparr>measurementDateTime := ''2024-01-01T10:00''\<rparr>) = Inr None
   \<and> calculateBilirubinRisk isoHost (exampleInput\<lparr>birthDateTime := ''''\<rparr>) = Inr None
   \<and> calculateBilirubinRisk isoHost (exampleInput\<lparr>birthDateTime := ''invalid-date''\<rparr>) = Inr None
   \<and> calculateBilirubinRisk isoHost exampleInput \<noteq> Inr None"
  using C3_null_exactly_on_invalid_input[of isoHost "exampleInput\<lparr>measurementDateTime := ''2024-01-01T10:00''\<rparr>"]
    C3_null_exactly_on_invalid_input[of isoHost "exampleInput\<lparr>birthDateTime := ''''\<rparr>"]
    C3_null_exactly_on_invalid_input[of isoHost "exampleInput\<lparr>birthDateTime := ''invalid-date''\<rparr>"]
    C3_null_exactly_on_invalid_input[of isoHost exampleInput]
  by (simp add: exampleInput_def iso_parse_examples) (simp add: iso_defs)

subsection \<open>C4: the cases of the interpolation\<close>

text \<open>
  C4: on a non-empty table (sorted or not) the interpolation returns, in this order of
  cases: the first point's y when the query is at or below the first x; the last point's y
  when the query is at or above the last x; otherwise the linear interpolation between
  the bracketing points of the specification, or the left point's y should both share
  their x. The bracketing points exist there and enclose the query, so their x differ and
  nothing is divided by zero. A table of one point gives that point's y for every query.
\<close>

theorem C4_linearInterpolate_cases:
  assumes "points \<noteq> []"
  shows "(x \<le> fst (hd points) \<longrightarrow> linearInterpolate points x = Inr (snd (hd points)))
       \<and> (fst (hd points) < x \<and> fst (last points) \<le> x \<longrightarrow>
            linearInterpolate points x = Inr (snd (last points)))
       \<and> (fst (hd points) < x \<and> x < fst (last points) \<longrightarrow>
            (\<exists>l r. bracket points x = Some (l, r) \<and> fst l < x \<and> x \<le> fst r
                   \<and> linearInterpolate points x =
                       Inr (if fst r = fst l then snd l
                            else snd l + (x - fst l) * (snd r - snd l) / (fst r - fst l))))
       \<and> (length points = 1 \<longrightarrow> linearInterpolate points x = Inr (snd (hd points)))"
proof -
  from assms obtain p ps where pts: "points = p # ps" by (cases points) auto
  have c1: "x \<le> fst (hd points) \<longrightarrow> linearInterpolate points x = Inr (snd (hd points))"
    unfolding pts linearInterpolate_eq by simp
  have c2: "fst (hd points) < x \<and> fst (last points) \<le> x \<longrightarrow>
            linearInterpolate points x = Inr (snd (last points))"
    unfolding pts linearInterpolate_eq by simp
  have c3: "fst (hd points) < x \<and> x < fst (last points) \<longrightarrow>
            (\<exists>l r. bracket points x = Some (l, r) \<and> fst l < x \<and> x \<le> fst r
                   \<and> linearInterpolate points x =
                       Inr (if fst r = fst l then snd l
                            else snd l + (x - fst l) * (snd r - snd l) / (fst r - fst l)))"
  proof
    assume a: "fst (hd points) < x \<and> x < fst (last points)"
    then have "\<not> x \<le> fst p" "\<not> fst (last (p # ps)) \<le> x" using pts by auto
    from linearInterpolate_interior[OF this]
    show "\<exists>l r. bracket points x = Some (l, r) \<and> fst l < x \<and> x \<le> fst r
                   \<and> linearInterpolate points x =
                       Inr (if fst r = fst l then snd l
                            else snd l + (x - fst l) * (snd r - snd l) / (fst r - fst l))"
      unfolding pts segmentValue_def by blast
  qed
  have c4: "length points = 1 \<longrightarrow> linearInterpolate points x = Inr (snd (hd points))"
    unfolding pts linearInterpolate_eq by auto
  from c1 c2 c3 c4 show ?thesis by blast
qed

text \<open>
  C4, witness: the table \<open>(0,0), (10,20), (20,10)\<close> of the test-suite below, above and
  inside its range, and a table of one point.
\<close>

theorem C4_linearInterpolate_witness:
  "linearInterpolate [(0, 0), (10, 20), (20, 10)] (-5) = Inr 0
   \<and> linearInterpolate [(0, 0), (10, 20), (20, 10)] 25 = Inr 10
   \<and> bracket [(0, 0), (10, 20), (20, 10)] 15 = Some ((10, 20), (20, 10))
   \<and> linearInterpolate [(0, 0), (10, 20), (20, 10)] 15 = Inr 15
   \<and> linearInterpolate [(5, 10)] 7 = Inr 10"
proof -
  have ne: "[(0, 0), (10, 20), (20, 10 :: real)] \<noteq> ([] :: DataPoints)" by simp
  have ne1: "[(5, 10 :: real)] \<noteq> ([] :: DataPoints)" by simp
  have b: "bracket [(0, 0), (10, 20), (20, 10)] 15 = Some ((10, 20), (20, 10))"
    by (simp add: bracket_def)
  show ?thesis
    using C4_linearInterpolate_cases[OF ne, of "-5"] C4_linearInterpolate_cases[OF ne, of 25]
      C4_linearInterpolate_cases[OF ne, of 15] C4_linearInterpolate_cases[OF ne1, of 7] b
    by simp
qed

subsection \<open>C5: the Bhutani zone\<close>

text \<open>
  C5: in every result of the engine in double precision, with the hours of life and the
  gestational age computed as the engine computes them, the zone is NotApplicable when the
  gestational age is below 35 weeks or the hours of life exceed 144. Otherwise, with the
  three curves interpolated at the hours of life as the engine interpolates them, the zone
  is High when the TCB is strictly above the high-intermediate curve, else
  HighIntermediate when strictly above the low-intermediate curve, else LowIntermediate
  when strictly above the low curve, else Low.
\<close>

theorem C5_bhutani_zone:
  assumes "calculateBilirubinRisk_double host input = Inr (Some r)"
      and "dateParse host (formatDateTime (birthDateTime input)) = Some b"
      and "dateParse host (formatDateTime (measurementDateTime input)) = Some m"
  shows "\<exists>hi li lo.
     linearInterpolate_double bhutaniData_highIntermediate (hoursOfLife_double b m) = Inr hi
     \<and> linearInterpolate_double bhutaniData_lowIntermediate (hoursOfLife_double b m) = Inr li
     \<and> linearInterpolate_double bhutaniData_low (hoursOfLife_double b m) = Inr lo
     \<and> bhutaniZone r =
         (if aogDecimal_double (gestationalWeeks input) (gestationalDays input) < 35
             \<or> hoursOfLife_double b m > 144 then NotApplicable
          else if tcbValue input > hi then High
          else if tcbValue input > li then HighIntermediate
          else if tcbValue input > lo then LowIntermediate
          else Low)"
proof -
  from calculateBilirubinRisk_double_Some[OF assms(1)] assms(2,3)
  have v: "birthDateTime input \<noteq> []" "measurementDateTime input \<noteq> []"
    "tcbValue input \<noteq> 0" "gestationalWeeks input \<noteq> 0" "b < m"
    by auto
  from calculateBilirubinRisk_double_valid[OF v(1-4) assms(2,3) v(5)] assms(1)
  have z: "Inr (bhutaniZone r) =
         (if aogDecimal_double (gestationalWeeks input) (gestationalDays input) < 35
          then Inr NotApplicable
          else getBhutaniZone_double (hoursOfLife_double b m) (tcbValue input))"
    by auto
  from getBhutaniZone_double_value[of "hoursOfLife_double b m" "tcbValue input"]
  obtain hi li lo where
    c: "linearInterpolate_double bhutaniData_highIntermediate (hoursOfLife_double b m) = Inr hi"
       "linearInterpolate_double bhutaniData_lowIntermediate (hoursOfLife_double b m) = Inr li"
       "linearInterpolate_double bhutaniData_low (hoursOfLife_double b m) = Inr lo"
    and g: "getBhutaniZone_double (hoursOfLife_double b m) (tcbValue input) = Inr
          (if hoursOfLife_double b m > 144 then NotApplicable
           else if tcbValue input > hi then High
           else if tcbValue input > li then HighIntermediate
           else if tcbValue input > lo then LowIntermediate
           else Low)"
    by blast
  have "bhutaniZone r =
         (if aogDecimal_double (gestationalWeeks input) (gestationalDays input) < 35
             \<or> hoursOfLife_double b m > 144 then NotApplicable
          else if tcbValue input > hi then High
          else if tcbValue input > li then HighIntermediate
          else if tcbValue input > lo then LowIntermediate
          else Low)"
    using z unfolding g by (simp split: if_splits)
  with c show ?thesis by blast
qed

text \<open>
  C5, witness: birth at 10:00, measurement at 09:12 on the next day, 38 weeks, TCB 9.3.
  The hours of life are 23.2 and the engine finds the high-intermediate curve at
  9.299999999999999, one unit in the last place below the double 9.3, so the zone is High.
\<close>

theorem C5_bhutani_zone_witness:
  "\<exists>r. calculateBilirubinRisk_double isoHost
          (exampleInput\<lparr>measurementDateTime := ''2024-01-02T09:12'', tcbValue := roundDouble (93 / 10)\<rparr>)
        = Inr (Some r)
      \<and> linearInterpolate_double bhutaniData_highIntermediate
            (hoursOfLife_double 1704103200000 1704186720000)
          = Inr (5235434566818201 / 562949953421312)
      \<and> roundDouble (93 / 10) = 5235434566818202 / 562949953421312
      \<and> bhutaniZone r = High"
proof -
  let ?i = "exampleInput\<lparr>measurementDateTime := ''2024-01-02T09:12'', tcbValue := roundDouble (93 / 10)\<rparr>"
  have p1: "dateParse isoHost (formatDateTime (birthDateTime ?i)) = Some 1704103200000"
    by (simp add: exampleInput_def iso_parse_examples)
  have p2: "dateParse isoHost (formatDateTime (measurementDateTime ?i)) = Some 1704186720000"
    by (simp add: exampleInput_def iso_parse_more)
  have t: "tcbValue ?i = 5235434566818202 / 562949953421312"
    by (simp add: double_literals)
  have f: "birthDateTime ?i \<noteq> []" "measurementDateTime ?i \<noteq> []" "tcbValue ?i \<noteq> 0"
    "gestationalWeeks ?i \<noteq> 0" "gestationalWeeks ?i = 38" "gestationalDays ?i = 0"
    unfolding t by (simp_all add: exampleInput_def)
  from calculateBilirubinRisk_double_valid[OF f(1-4) p1 p2]
  obtain r where r: "calculateBilirubinRisk_double isoHost ?i = Inr (Some r)" by auto
  have hi: "linearInterpolate_double bhutaniData_highIntermediate
            (hoursOfLife_double 1704103200000 1704186720000)
          = Inr (5235434566818201 / 562949953421312)"
    unfolding double_hours by (rule bhutani_double_23h12)
  from C5_bhutani_zone[OF r p1 p2]
  have "bhutaniZone r = High"
    unfolding f(5,6) hi t double_age by (auto simp add: double_hours)
  with r hi double_literals(1) show ?thesis by blast
qed

subsection \<open>C6: the AAP thresholds\<close>

text \<open>
  C6, as amended: in every result of the engine in double precision for a gestational age
  of at least 35 weeks, the curve of each family is the one the table of the specification
  selects; the curve is interpolated at the hours of life as the engine interpolates it;
  the status is ABOVE when the TCB is at least the interpolated value itself, before any
  rounding to two decimal places, else BELOW; and the reported threshold is the double
  nearest to a whole number of hundredths that is at most half a hundredth away from the
  interpolated value.
\<close>

theorem C6_aap_thresholds_unrounded_comparison:
  assumes "calculateBilirubinRisk_double host input = Inr (Some r)"
      and "dateParse host (formatDateTime (birthDateTime input)) = Some b"
      and "dateParse host (formatDateTime (measurementDateTime input)) = Some m"
      and "aogDecimal_double (gestationalWeeks input) (gestationalDays input) \<ge> 35"
  shows "\<exists>plT dvT.
     linearInterpolate_double
       (aapPlCurve (aapTier (aogDecimal_double (gestationalWeeks input) (gestationalDays input))
                            (hasRiskFactors input)))
       (hoursOfLife_double b m) = Inr plT
     \<and> linearInterpolate_double
       (aapDvetCurve (aapTier (aogDecimal_double (gestationalWeeks input) (gestationalDays input))
                              (hasRiskFactors input)))
       (hoursOfLife_double b m) = Inr dvT
     \<and> phototherapy r =
         \<lparr>status = (if tcbValue input \<ge> plT then ABOVE else BELOW),
          threshold = Num (toFixedNum_double 2 plT)\<rparr>
     \<and> exchangeTransfusion r =
         \<lparr>status = (if tcbValue input \<ge> dvT then ABOVE else BELOW),
          threshold = Num (toFixedNum_double 2 dvT)\<rparr>
     \<and> (\<exists>n::int. toFixedNum_double 2 plT = roundDouble (of_int n / 100)
                  \<and> \<bar>of_int n / 100 - plT\<bar> \<le> 1 / 200)
     \<and> (\<exists>n::int. toFixedNum_double 2 dvT = roundDouble (of_int n / 100)
                  \<and> \<bar>of_int n / 100 - dvT\<bar> \<le> 1 / 200)"
proof -
  let ?a = "aogDecimal_double (gestationalWeeks input) (gestationalDays input)"
  let ?h = "hoursOfLife_double b m"
  from calculateBilirubinRisk_double_Some[OF assms(1)] assms(2,3)
  have v: "birthDateTime input \<noteq> []" "measurementDateTime input \<noteq> []"
    "tcbValue input \<noteq> 0" "gestationalWeeks input \<noteq> 0" "b < m"
    by auto
  from calculateBilirubinRisk_double_valid[OF v(1-4) assms(2,3) v(5)] assms(1,4)
  have t: "Inr (TherapyThresholds.truncate r) =
      getAapThresholds_double ?h ?a (hasRiskFactors input) (tcbValue input)"
    by auto
  from getAapThresholds_double_value[of ?a "hasRiskFactors input" ?h "tcbValue input"]
  obtain plT dvT where
    pl: "linearInterpolate_double (aapPlCurve (aapTier ?a (hasRiskFactors input))) ?h = Inr plT"
    and dv: "linearInterpolate_double (aapDvetCurve (aapTier ?a (hasRiskFactors input))) ?h = Inr dvT"
    and rg: "\<bar>plT\<bar> \<le> 10 ^ 6" "\<bar>dvT\<bar> \<le> 10 ^ 6"
    and g: "getAapThresholds_double ?h ?a (hasRiskFactors input) (tcbValue input) = Inr
          \<lparr>phototherapy =
             \<lparr>status = (if tcbValue input \<ge> plT then ABOVE else BELOW), threshold = Num (toFixedNum_double 2 plT)\<rparr>,
           exchangeTransfusion =
             \<lparr>status = (if tcbValue input \<ge> dvT then ABOVE else BELOW), threshold = Num (toFixedNum_double 2 dvT)\<rparr>\<rparr>"
    by auto
  from t have th: "phototherapy r =
         \<lparr>status = (if tcbValue input \<ge> plT then ABOVE else BELOW),
          threshold = Num (toFixedNum_double 2 plT)\<rparr>
     \<and> exchangeTransfusion r =
         \<lparr>status = (if tcbValue input \<ge> dvT then ABOVE else BELOW),
          threshold = Num (toFixedNum_double 2 dvT)\<rparr>"
    unfolding g by (simp add: TherapyThresholds.truncate_def)
  have "\<bar>plT\<bar> < 10 ^ 21" "\<bar>dvT\<bar> < 10 ^ 21" using rg by simp_all
  from toFixedNum_double_nearest[OF this(1), of 2] toFixedNum_double_nearest[OF this(2), of 2]
  have rd: "\<exists>n::int. toFixedNum_double 2 plT = roundDouble (of_int n / 100)
                  \<and> \<bar>of_int n / 100 - plT\<bar> \<le> 1 / 200"
     "\<exists>n::int. toFixedNum_double 2 dvT = roundDouble (of_int n / 100)
                  \<and> \<bar>of_int n / 100 - dvT\<bar> \<le> 1 / 200"
    by simp_all
  from pl dv th rd show ?thesis by blast
qed

text \<open>
  C6, witness: birth at 10:00, measurement at 20:48 on the same day, 38 weeks with risk
  factors, TCB 6.7. The hours of life are 10.8 and the engine finds the medium-risk
  phototherapy curve at 6.700000000000001, above the double 6.7: the status is BELOW and
  the reported threshold is 6.7. The exchange-transfusion threshold is 13.15.
\<close>

theorem C6_aap_thresholds_witness:
  "\<exists>r. calculateBilirubinRisk_double isoHost
          (exampleInput\<lparr>measurementDateTime := ''2024-01-01T20:48'',
                         tcbValue := roundDouble (67 / 10), hasRiskFactors := True\<rparr>)
        = Inr (Some r)
      \<and> aogDecimal_double 38 0 \<ge> 35
      \<and> aapTier (aogDecimal_double 38 0) True = MediumRisk
      \<and> linearInterpolate_double aapPlData_mediumRisk
            (hoursOfLife_double 1704103200000 1704142080000)
          = Inr (3771764687922791 / 562949953421312)
      \<and> roundDouble (67 / 10) = 7543529375845581 / 1125899906842624
      \<and> phototherapy r = \<lparr>status = BELOW, threshold = Num (roundDouble (67 / 10))\<rparr>
      \<and> exchangeTransfusion r =
          \<lparr>status = BELOW, threshold = Num (7402791887490253 / 562949953421312)\<rparr>"
proof -
  let ?i = "exampleInput\<lparr>measurementDateTime := ''2024-01-01T20:48'',
                         tcbValue := roundDouble (67 / 10), hasRiskFactors := True\<rparr>"
  have p1: "dateParse isoHost (formatDateTime (birthDateTime ?i)) = Some 1704103200000"
    by (simp add: exampleInput_def iso_parse_examples)
  have p2: "dateParse isoHost (formatDateTime (measurementDateTime ?i)) = Some 1704142080000"
    by (simp add: exampleInput_def iso_parse_more)
  have t: "tcbValue ?i = 7543529375845581 / 1125899906842624"
    by (simp add: double_literals)
  have f: "birthDateTime ?i \<noteq> []" "measurementDateTime ?i \<noteq> []" "tcbValue ?i \<noteq> 0"
    "gestationalWeeks ?i \<noteq> 0" "gestationalWeeks ?i = 38" "gestationalDays ?i = 0"
    "hasRiskFactors ?i = True"
    unfolding t by (simp_all add: exampleInput_def)
  from calculateBilirubinRisk_double_valid[OF f(1-4) p1 p2]
  obtain r where r: "calculateBilirubinRisk_double isoHost ?i = Inr (Some r)" by auto
  have a: "aogDecimal_double (gestationalWeeks ?i) (gestationalDays ?i) \<ge> 35"
    unfolding f(5,6) double_age by simp
  have ti: "aapTier (aogDecimal_double 38 0) True = MediumRisk"
    unfolding double_age by (simp add: aapTier_def)
  have pl: "linearInterpolate_double aapPlData_mediumRisk
            (hoursOfLife_double 1704103200000 1704142080000)
          = Inr (3771764687922791 / 562949953421312)"
    unfolding double_hours by (rule aap_double_10h48)
  have dv: "linearInterpolate_double aapDvetData_mediumRisk
            (hoursOfLife_double 1704103200000 1704142080000)
          = Inr (7402791887490253 / 562949953421312)"
    unfolding double_hours by (rule aap_double_10h48)
  from C6_aap_thresholds_unrounded_comparison[OF r p1 p2 a]
  obtain plT dvT where
    e: "3771764687922791 / 562949953421312 = plT" "7402791887490253 / 562949953421312 = dvT"
    and ph: "phototherapy r =
         \<lparr>status = (if tcbValue ?i \<ge> plT then ABOVE else BELOW),
          threshold = Num (toFixedNum_double 2 plT)\<rparr>"
    and ex: "exchangeTransfusion r =
         \<lparr>status = (if tcbValue ?i \<ge> dvT then ABOVE else BELOW),
          threshold = Num (toFixedNum_double 2 dvT)\<rparr>"
    unfolding f(5,6,7) ti aapPlCurve.simps aapDvetCurve.simps pl dv sum.inject by blast
  have "phototherapy r = \<lparr>status = BELOW, threshold = Num (roundDouble (67 / 10))\<rparr>
      \<and> exchangeTransfusion r =
          \<lparr>status = BELOW, threshold = Num (7402791887490253 / 562949953421312)\<rparr>"
    unfolding ph ex e[symmetric] aap_double_10h48(3,4) t double_literals(2) by simp
  with r a ti pl double_literals(2) show ?thesis unfolding f(5,6) by blast
qed

text \<open>
  C6, as stated, fails: one minute after birth at 38 weeks without risk factors the engine
  finds the lower-risk phototherapy curve at 5.004861111111111 and reports the threshold 5.
  A TCB of 5 equals the reported threshold, yet its status is BELOW.
\<close>

theorem C6_rounded_threshold_counterexample:
  "(case calculateBilirubinRisk_double isoHost
           (exampleInput\<lparr>measurementDateTime := ''2024-01-01T10:01'', tcbValue := 5\<rparr>) of
      Inr (Some r) \<Rightarrow> tcb r = 5 \<and> phototherapy r = \<lparr>status = BELOW, threshold = Num 5\<rparr>
    | _ \<Rightarrow> False)"
proof -
  from calculateBilirubinRisk_double_valid[of "exampleInput\<lparr>measurementDateTime := ''2024-01-01T10:01'', tcbValue := 5\<rparr>"
      isoHost 1704103200000 1704103260000]
  obtain r where r: "calculateBilirubinRisk_double isoHost
           (exampleInput\<lparr>measurementDateTime := ''2024-01-01T10:01'', tcbValue := 5\<rparr>) = Inr (Some r)"
    and t: "Inr (TherapyThresholds.truncate r) =
         getAapThresholds_double (4803839602528529 / 288230376151711744) 38 False 5"
    and c: "tcb r = 5"
    by (auto simp add: exampleInput_def iso_parse_examples double_hours double_age)
  from t have "phototherapy r = \<lparr>status = BELOW, threshold = Num 5\<rparr>"
    unfolding aap_double_1min by (simp add: TherapyThresholds.truncate_def)
  with r c show ?thesis by simp
qed

subsection \<open>C7: three shapes of one timestamp\<close>

text \<open>
  C7: the three texts \<open>2024/01/01 - 10:00\<close>, \<open>2024-01-01 10:00\<close> and \<open>2024-01-01T10:00\<close>
  normalise to the same text, which the host of the concrete runs reads as one instant;
  so on every host and for all other fields the engine returns the same result, hours of
  life included, whichever of the three is the birth or the measurement timestamp.
\<close>

theorem C7_three_shapes_one_instant:
  "formatDateTime ''2024/01/01 - 10:00'' = ''2024-01-01T10:00''
   \<and> formatDateTime ''2024-01-01 10:00'' = ''2024-01-01T10:00''
   \<and> formatDateTime ''2024-01-01T10:00'' = ''2024-01-01T10:00''
   \<and> dateParse isoHost ''2024-01-01T10:00'' = Some 1704103200000
   \<and> calculateBilirubinRisk host (input\<lparr>birthDateTime := ''2024/01/01 - 10:00''\<rparr>)
       = calculateBilirubinRisk host (input\<lparr>birthDateTime := ''2024-01-01T10:00''\<rparr>)
   \<and> calculateBilirubinRisk host (input\<lparr>birthDateTime := ''2024-01-01 10:00''\<rparr>)
       = calculateBilirubinRisk host (input\<lparr>birthDateTime := ''2024-01-01T10:00''\<rparr>)
   \<and> calculateBilirubinRisk host (input\<lparr>measurementDateTime := ''2024/01/01 - 10:00''\<rparr>)
       = calculateBilirubinRisk host (input\<lparr>measurementDateTime := ''2024-01-01T10:00''\<rparr>)
   \<and> calculateBilirubinRisk host (input\<lparr>measurementDateTime := ''2024-01-01 10:00''\<rparr>)
       = calculateBilirubinRisk host (input\<lparr>measurementDateTime := ''2024-01-01T10:00''\<rparr>)"
proof -
  have p: "dateParse isoHost ''2024-01-01T10:00'' = Some 1704103200000"
    by (simp add: iso_defs)
  have f1: "formatDateTime ''2024/01/01 - 10:00'' = formatDateTime ''2024-01-01T10:00''"
    and f2: "formatDateTime ''2024-01-01 10:00'' = formatDateTime ''2024-01-01T10:00''"
    by (simp_all add: format_examples)
  show ?thesis
    using p format_examples(1-3)
      same_birth_format[OF _ _ f1, of host input] same_birth_format[OF _ _ f2, of host input]
      same_measurement_format[OF _ _ f1, of host input]
      same_measurement_format[OF _ _ f2, of host input]
    by simp
qed

subsection \<open>C8: the order of the Bhutani curves\<close>

text \<open>
  C8: at every hours-of-life value, inside or outside the range of the tables, the three
  interpolated Bhutani curves satisfy low < low-intermediate < high-intermediate.
\<close>

theorem C8_bhutani_curves_ordered:
  "\<exists>lo li hi.
     linearInterpolate bhutaniData_low x = Inr lo
     \<and> linearInterpolate bhutaniData_lowIntermediate x = Inr li
     \<and> linearInterpolate bhutaniData_highIntermediate x = Inr hi
     \<and> lo < li \<and> li < hi"
  unfolding bhutani_low_value bhutani_lowIntermediate_value bhutani_highIntermediate_value
  by (simp add: field_simps)

subsection \<open>C9: monotone curves\<close>


subsection \<open>C10: the Maisels path ignores the timestamps\<close>

text \<open>
  C10: two results of the engine for inputs with the same TCB value, gestational weeks and
  gestational days, at a gestational age below 35 weeks, have the same phototherapy
  result, the same exchange-transfusion result and the same Bhutani zone, whatever their
  timestamps are.
\<close>

theorem C10_maisels_path_ignores_timestamps:
  assumes "calculateBilirubinRisk host input1 = Inr (Some r1)"
      and "calculateBilirubinRisk host input2 = Inr (Some r2)"
      and "tcbValue input1 = tcbValue input2"
      and "gestationalWeeks input1 = gestationalWeeks input2"
      and "gestationalDays input1 = gestationalDays input2"
      and "gestationalWeeks input1 + gestationalDays input1 / 7 < 35"
  shows "phototherapy r1 = phototherapy r2
       \<and> exchangeTransfusion r1 = exchangeTransfusion r2
       \<and> bhutaniZone r1 = bhutaniZone r2"
proof -
  let ?a = "gestationalWeeks input1 + gestationalDays input1 / 7"
  have one: "TherapyThresholds.truncate r = getMaiselsThresholds ?a (tcbValue input1)
             \<and> bhutaniZone r = NotApplicable"
    if run: "calculateBilirubinRisk host input = Inr (Some r)"
      and same: "tcbValue input = tcbValue input1" "gestationalWeeks input = gestationalWeeks input1"
        "gestationalDays input = gestationalDays input1"
    for input r
  proof -
    from calculateBilirubinRisk_Some[OF run] obtain b m where
      v: "birthDateTime input \<noteq> []" "measurementDateTime input \<noteq> []"
         "tcbValue input \<noteq> 0" "gestationalWeeks input \<noteq> 0"
         "dateParse host (formatDateTime (birthDateTime input)) = Some b"
         "dateParse host (formatDateTime (measurementDateTime input)) = Some m" "b < m"
      by blast
    from calculateBilirubinRisk_valid[OF v] run same assms(6) show ?thesis by auto
  qed
  from one[OF assms(1)] one[OF assms(2)] assms(3,4,5)
  have "TherapyThresholds.truncate r1 = TherapyThresholds.truncate r2"
    and "bhutaniZone r1 = bhutaniZone r2"
    by simp_all
  then show ?thesis by (simp add: TherapyThresholds.truncate_def)
qed

text \<open>
  C10, witness: 30 weeks 0 days with TCB 10, measured 24 hours and one minute after birth:
  both runs report the number 10 with status ABOVE for phototherapy.
\<close>

theorem C10_maisels_path_witness:
  "\<exists>r1 r2.
     calculateBilirubinRisk isoHost (exampleInput\<lparr>gestationalWeeks := 30\<rparr>) = Inr (Some r1)
     \<and> calculateBilirubinRisk isoHost
         (exampleInput\<lparr>measurementDateTime := ''2024-01-01T10:01'', gestationalWeeks := 30\<rparr>) = Inr (Some r2)
     \<and> phototherapy r1 = \<lparr>status = ABOVE, threshold = Num 10\<rparr>
     \<and> phototherapy r1 = phototherapy r2
     \<and> exchangeTransfusion r1 = exchangeTransfusion r2
     \<and> bhutaniZone r1 = bhutaniZone r2"
proof -
  let ?i1 = "exampleInput\<lparr>gestationalWeeks := 30\<rparr>"
  let ?i2 = "exampleInput\<lparr>measurementDateTime := ''2024-01-01T10:01'', gestationalWeeks := 30\<rparr>"
  from calculateBilirubinRisk_valid[of ?i1 isoHost 1704103200000 1704189600000]
  obtain r1 where r1: "calculateBilirubinRisk isoHost ?i1 = Inr (Some r1)"
    and t1: "TherapyThresholds.truncate r1 = getMaiselsThresholds 30 10"
    by (auto simp add: exampleInput_def iso_parse_examples)
  from calculateBilirubinRisk_valid[of ?i2 isoHost 1704103200000 1704103260000]
  obtain r2 where r2: "calculateBilirubinRisk isoHost ?i2 = Inr (Some r2)"
    by (auto simp add: exampleInput_def iso_parse_examples)
  have p: "phototherapy r1 = \<lparr>status = ABOVE, threshold = Num 10\<rparr>"
    using t1 by (simp add: TherapyThresholds.truncate_def getMaiselsThresholds_def maiselsData_31_def)
  have "phototherapy r1 = phototherapy r2
       \<and> exchangeTransfusion r1 = exchangeTransfusion r2
       \<and> bhutaniZone r1 = bhutaniZone r2"
    using C10_maisels_path_ignores_timestamps[OF r1 r2] by (simp add: exampleInput_def)
  with r1 r2 p show ?thesis by blast
qed

end
